theory Spec2Isabelle
  imports Complex_Main
begin

section \<open>Data model\<close>

text \<open>
  The tour store (\<^verbatim>\<open>src/unnamed/part_005\<close>, lines 1--426), the sight type
  (\<^verbatim>\<open>src/types/sight.ts\<close>) and the wizard settings (\<^verbatim>\<open>src/unnamed/part_006\<close>).
  A JavaScript \<^verbatim>\<open>number\<close> is modelled as a real (a natural number or an integer where the
  source only ever produces a count, a timestamp or the result of \<^verbatim>\<open>Math.ceil\<close>); rounding
  of doubles and \<^verbatim>\<open>NaN\<close> are outside the model. An optional field is an \<open>option\<close>.
\<close>

datatype sight_id = NumId int | StrId string

record SavedContent =
  sc_id :: string
  sc_language :: string
  sc_length :: string
  sc_interests :: string
  sc_content :: string
  sc_createdAt :: nat

record Sight =
  sight_id :: sight_id
  sight_name :: string
  category :: string
  latitude :: real
  longitude :: real
  distance :: "real option"
  imageUrl :: string
  yearBuilt :: "int option"
  briefDescription :: string
  fullDescription :: string
  briefDescriptionDE :: string
  fullDescriptionDE :: string
  rating :: "real option"
  placeId :: "string option"
  tier :: nat
  savedContent :: "SavedContent list option"

record TourStop = Sight +
  order :: nat
  distanceToNext :: "real option"
  walkingTimeToNext :: "int option"

record Tour =
  tour_id :: string
  tour_name :: string
  sights :: "TourStop list"
  totalDistance :: real
  estimatedDuration :: int
  createdAt :: nat

datatype AudioLength = Brief | Medium | Expert
datatype TransportMode = Walk | Taxi | Public | Mix
datatype TourType = RoundTrip | PointToPoint

record TourWizardSettings =
  numberOfDays :: nat
  dailyDurationHours :: nat
  maxLengthKm :: real
  transportMode :: TransportMode
  interestLevel :: "nat list"
  tourType :: TourType
  detailLevelPerSight :: AudioLength

record TourState =
  currentTour :: "Tour option"
  savedTours :: "Tour list"
  isGenerating :: bool
  tourDistance :: real

text \<open>A location \<^verbatim>\<open>{ latitude, longitude }\<close> is the pair of its two coordinates.\<close>

type_synonym location = "real \<times> real"

text \<open>
  \<^verbatim>\<open>calculateDistance(lat1, lon1, lat2, lon2)\<close> is a Haversine formula over doubles. Every
  function below that calls it takes it as the parameter \<open>cd\<close>, so each theorem holds for
  whatever number the call returns.
\<close>

type_synonym distance_fn = "real \<Rightarrow> real \<Rightarrow> real \<Rightarrow> real \<Rightarrow> real"

section \<open>Tier classifier\<close>

text \<open>
  \<^verbatim>\<open>!x\<close> on an optional number is true when the number is absent and when it is \<open>0\<close>.
\<close>

definition falsy_num :: "real option \<Rightarrow> bool" where
  "falsy_num x = (case x of None \<Rightarrow> True | Some v \<Rightarrow> v = 0)"

definition determineSightTier :: "real option \<Rightarrow> real option \<Rightarrow> nat" where
  "determineSightTier rating' userRatingsTotal =
     (if falsy_num rating' \<or> falsy_num userRatingsTotal then 2
      else if the rating' \<ge> 4.3 \<and> the userRatingsTotal \<ge> 500 then 1
      else if the rating' < 4 \<or> the userRatingsTotal < 50 then 3
      else 2)"

text \<open>
  The classifier as the specification words it: a missing rating or review count gives
  tier 2, then the tier-1 test, then the tier-3 test, else tier 2.
\<close>

definition tier_reference :: "real option \<Rightarrow> real option \<Rightarrow> nat" where
  "tier_reference r c =
     (case (r, c) of
        (Some rv, Some cv) \<Rightarrow>
          (if rv \<ge> 4.3 \<and> cv \<ge> 500 then 1
           else if rv < 4 \<or> cv < 50 then 3
           else 2)
      | _ \<Rightarrow> 2)"

section \<open>Heuristic route optimizer\<close>

text \<open>
  The callback of both \<^verbatim>\<open>reduce\<close> calls of \<^verbatim>\<open>optimizeTourSimple\<close> (lines 223--237 and
  248--262): keep the accumulator unless the next sight is strictly closer.
\<close>

definition closerSight :: "distance_fn \<Rightarrow> location \<Rightarrow> Sight \<Rightarrow> Sight \<Rightarrow> Sight" where
  "closerSight cd currentLocation closest sight =
     (let distance' = cd (fst currentLocation) (snd currentLocation)
                         (latitude sight) (longitude sight);
          closestDistance = cd (fst currentLocation) (snd currentLocation)
                               (latitude closest) (longitude closest)
      in if distance' < closestDistance then sight else closest)"

text \<open>
  The \<^verbatim>\<open>while\<close> loop of lines 244--287. \<^verbatim>\<open>visited\<close> is a JavaScript \<^verbatim>\<open>Set\<close> of
  identifiers: a list without repetition, whose size is its length. \<^verbatim>\<open>reduce\<close> without
  an initial value starts from the first element of the (non-empty) array.
\<close>

function nearestNeighbourLoop ::
  "distance_fn \<Rightarrow> location \<Rightarrow> Sight list \<Rightarrow> real \<Rightarrow>
   sight_id list \<Rightarrow> Sight list \<Rightarrow> location \<Rightarrow> real \<Rightarrow> Sight list" where
  "nearestNeighbourLoop cd userLocation sights' maxDistance visited route currentLocation totalDist =
     (if length visited < length sights' \<and> length visited < 8 then
        (case filter (\<lambda>sight. sight_id sight \<notin> set visited) sights' of
           [] \<Rightarrow> route
         | u # us \<Rightarrow>
             (let nextSight = foldl (closerSight cd currentLocation) u us;
                  distanceToNext' = cd (fst currentLocation) (snd currentLocation)
                                       (latitude nextSight) (longitude nextSight);
                  estimatedReturnDistance = cd (latitude nextSight) (longitude nextSight)
                                               (fst userLocation) (snd userLocation) * 0.5
              in if totalDist + distanceToNext' + estimatedReturnDistance > maxDistance * 0.9
                 then route
                 else nearestNeighbourLoop cd userLocation sights' maxDistance
                        (List.insert (sight_id nextSight) visited)
                        (route @ [nextSight])
                        (latitude nextSight, longitude nextSight)
                        (totalDist + distanceToNext')))
      else route)"
  by pat_completeness auto
termination
proof (relation "measure (\<lambda>(cd, userLocation, sights', maxDistance, visited, route, cur, totalDist).
                   8 - length visited)", goal_cases)
  case 1
  show ?case by simp
next
  case (2 cd userLocation sights' maxDistance visited route currentLocation totalDist u us
          nextSight distanceToNext' estimatedReturnDistance)
  have mem: "foldl (closerSight cd currentLocation) a xs \<in> insert a (set xs)" for a xs
  proof (induction xs arbitrary: a)
    case Nil
    show ?case by simp
  next
    case (Cons x xs)
    have "foldl (closerSight cd currentLocation) (closerSight cd currentLocation a x) xs
            \<in> insert (closerSight cd currentLocation a x) (set xs)"
      by (rule Cons.IH)
    moreover have "closerSight cd currentLocation a x \<in> {a, x}"
      by (simp add: closerSight_def Let_def)
    ultimately show ?case by auto
  qed
  from 2 have "nextSight \<in> set (filter (\<lambda>sight. sight_id sight \<notin> set visited) sights')"
    using mem [of u us] by simp
  then have "sight_id nextSight \<notin> set visited" by simp
  moreover from 2 have "length visited < 8" by simp
  ultimately show ?case by simp
qed

definition optimizeTourSimple ::
  "distance_fn \<Rightarrow> location \<Rightarrow> Sight list \<Rightarrow> real \<Rightarrow> TourWizardSettings option \<Rightarrow> Sight list"
  where
  "optimizeTourSimple cd userLocation sights' maxDistance wizardSettings =
     (if length sights' \<le> 1 then sights'
      else (case sights' of
              [] \<Rightarrow> []
            | s # rest \<Rightarrow>
                (let closestSight = foldl (closerSight cd userLocation) s rest
                 in nearestNeighbourLoop cd userLocation sights' maxDistance
                      [sight_id closestSight] [closestSight]
                      (latitude closestSight, longitude closestSight) 0)))"

section \<open>Delegated route optimizer\<close>

text \<open>
  String helpers of the response parser (lines 362--374), on ASCII: \<^verbatim>\<open>toLowerCase\<close>,
  \<^verbatim>\<open>includes\<close>, \<^verbatim>\<open>split(",")\<close> and \<^verbatim>\<open>trim\<close>.
\<close>

definition toLowerCase :: "string \<Rightarrow> string" where
  "toLowerCase s =
     map (\<lambda>c. let n = (of_char c :: nat) in if 65 \<le> n \<and> n \<le> 90 then char_of (n + 32) else c) s"

definition toUpperCase :: "string \<Rightarrow> string" where
  "toUpperCase s =
     map (\<lambda>c. let n = (of_char c :: nat) in if 97 \<le> n \<and> n \<le> 122 then char_of (n - 32) else c) s"

fun includes_str :: "string \<Rightarrow> string \<Rightarrow> bool" where
  "includes_str [] sub = (sub = [])"
| "includes_str (c # cs) sub = (take (length sub) (c # cs) = sub \<or> includes_str cs sub)"

fun split_on :: "char \<Rightarrow> string \<Rightarrow> string list" where
  "split_on sep [] = [[]]"
| "split_on sep (c # cs) =
     (if c = sep then [] # split_on sep cs
      else (case split_on sep cs of [] \<Rightarrow> [[c]] | w # ws \<Rightarrow> (c # w) # ws))"

definition is_space :: "char \<Rightarrow> bool" where
  "is_space c = ((of_char c :: nat) \<in> {9, 10, 11, 12, 13, 32})"

definition trim :: "string \<Rightarrow> string" where
  "trim s = rev (dropWhile is_space (rev (dropWhile is_space s)))"

text \<open>\<^verbatim>\<open>a.distance || 0\<close>, the sort key of lines 83 and 380.\<close>

definition distanceOrZero :: "Sight \<Rightarrow> real" where
  "distanceOrZero a = (case distance a of None \<Rightarrow> 0 | Some v \<Rightarrow> v)"

text \<open>
  What the request to the text-completion endpoint (lines 338--362) can come to: the
  \<^verbatim>\<open>fetch\<close> rejects, the response is not \<^verbatim>\<open>ok\<close>, the body is not JSON with a string
  \<^verbatim>\<open>completion\<close>, or a completion text arrives.
\<close>

datatype llm_outcome = FetchRejected | ResponseNotOk | BodyMalformed | Completion string

text \<open>The body of the \<^verbatim>\<open>forEach\<close> of lines 366--374.\<close>

definition addMatched :: "Sight list \<Rightarrow> Sight list \<Rightarrow> string \<Rightarrow> Sight list" where
  "addMatched sights' optimizedRoute name' =
     (case find (\<lambda>s. includes_str (toLowerCase (sight_name s)) (toLowerCase name') \<or>
                      includes_str (toLowerCase name') (toLowerCase (sight_name s))) sights' of
        None \<Rightarrow> optimizedRoute
      | Some sight \<Rightarrow>
          (if find (\<lambda>r. sight_id r = sight_id sight) optimizedRoute = None
           then optimizedRoute @ [sight] else optimizedRoute))"

definition optimizeTourWithAI ::
  "distance_fn \<Rightarrow> llm_outcome \<Rightarrow> location \<Rightarrow> Sight list \<Rightarrow> real \<Rightarrow>
   TourWizardSettings option \<Rightarrow> Sight list" where
  "optimizeTourWithAI cd response userLocation sights' maxDistance wizardSettings =
     (case response of
        Completion completion \<Rightarrow>
          (let sightNames = map trim (split_on CHR '','' completion);
               matched = foldl (addMatched sights') [] sightNames;
               optimizedRoute =
                 (if length matched < 3 then
                    (let remainingSights =
                           sort_key distanceOrZero
                             (filter (\<lambda>sight. find (\<lambda>r. sight_id r = sight_id sight) matched = None)
                                sights')
                     in matched @ take (min 5 (length remainingSights)) remainingSights)
                  else matched)
           in if length optimizedRoute > 0 then optimizedRoute
              else optimizeTourSimple cd userLocation sights' maxDistance None)
      | _ \<Rightarrow> optimizeTourSimple cd userLocation sights' maxDistance wizardSettings)"

section \<open>Tour assembler\<close>

definition getTransportTimeMultiplier :: "TransportMode \<Rightarrow> real" where
  "getTransportTimeMultiplier transportMode' =
     (case transportMode' of Walk \<Rightarrow> 12 | Taxi \<Rightarrow> 3 | Public \<Rightarrow> 6 | Mix \<Rightarrow> 8)"

definition getDetailLevelTime :: "AudioLength \<Rightarrow> int" where
  "getDetailLevelTime detailLevel =
     (case detailLevel of Brief \<Rightarrow> 5 | Medium \<Rightarrow> 15 | Expert \<Rightarrow> 25)"

text \<open>
  The callback of the \<^verbatim>\<open>map\<close> of lines 103--127. \<^verbatim>\<open>optimizedRoute[index + 1]\<close> is
  \<^verbatim>\<open>undefined\<close> past the end, which is the \<^verbatim>\<open>else\<close> branch here.
\<close>

definition toTourStop ::
  "distance_fn \<Rightarrow> TourWizardSettings option \<Rightarrow> Sight list \<Rightarrow> nat \<Rightarrow> Sight \<Rightarrow> TourStop" where
  "toTourStop cd wizardSettings optimizedRoute index sight =
     (if index + 1 < length optimizedRoute then
        (let nextSight = optimizedRoute ! (index + 1);
             distanceToNext' = cd (latitude sight) (longitude sight)
                                  (latitude nextSight) (longitude nextSight);
             transportMultiplier =
               (case wizardSettings of
                  None \<Rightarrow> 12
                | Some w \<Rightarrow> getTransportTimeMultiplier (transportMode w));
             walkingTimeToNext' = \<lceil>distanceToNext' * transportMultiplier\<rceil>
         in Sight.extend sight
              (TourStop.fields (index + 1) (Some distanceToNext') (Some walkingTimeToNext')))
      else Sight.extend sight (TourStop.fields (index + 1) (Some 0) (Some 0)))"

definition tourStopsOf ::
  "distance_fn \<Rightarrow> TourWizardSettings option \<Rightarrow> Sight list \<Rightarrow> TourStop list" where
  "tourStopsOf cd wizardSettings optimizedRoute =
     map (\<lambda>(index, sight). toTourStop cd wizardSettings optimizedRoute index sight)
       (enumerate 0 optimizedRoute)"

text \<open>Decimal rendering of a count or a timestamp in a template string.\<close>

function show_nat :: "nat \<Rightarrow> string" where
  "show_nat n =
     (if n < 10 then [char_of (48 + n)] else show_nat (n div 10) @ [char_of (48 + n mod 10)])"
  by pat_completeness auto
termination
  by (relation "measure (\<lambda>n. n)") auto

definition transportModeString :: "TransportMode \<Rightarrow> string" where
  "transportModeString m =
     (case m of Walk \<Rightarrow> ''walk'' | Taxi \<Rightarrow> ''taxi'' | Public \<Rightarrow> ''public'' | Mix \<Rightarrow> ''mix'')"

text \<open>
  What one call reads from outside the tour store: the credential of the settings store,
  the outcome of the request of the delegated optimizer, and the clock (read twice).
\<close>

record Env =
  openAiApiKey :: string
  llmResponse :: llm_outcome
  dateNow :: nat
  newDate :: nat

text \<open>\<^verbatim>\<open>stop.distanceToNext || 0\<close> and \<^verbatim>\<open>stop.walkingTimeToNext || 0\<close> (lines 130--131).\<close>

definition distanceToNextOrZero :: "TourStop \<Rightarrow> real" where
  "distanceToNextOrZero stop = (case distanceToNext stop of None \<Rightarrow> 0 | Some v \<Rightarrow> v)"

definition walkingTimeToNextOrZero :: "TourStop \<Rightarrow> int" where
  "walkingTimeToNextOrZero stop = (case walkingTimeToNext stop of None \<Rightarrow> 0 | Some v \<Rightarrow> v)"

text \<open>Lines 129--146: the aggregates and the \<^verbatim>\<open>Tour\<close> object.\<close>

definition assembleTour ::
  "distance_fn \<Rightarrow> Env \<Rightarrow> TourWizardSettings option \<Rightarrow> Sight list \<Rightarrow> Tour" where
  "assembleTour cd env wizardSettings optimizedRoute =
     (let tourStops = tourStopsOf cd wizardSettings optimizedRoute;
          totalWalkingDistance =
            foldl (\<lambda>sum stop. sum + distanceToNextOrZero stop) 0 tourStops;
          totalWalkingTime =
            foldl (\<lambda>sum stop. sum + walkingTimeToNextOrZero stop) 0 tourStops;
          sightTimePerStop =
            (case wizardSettings of
               None \<Rightarrow> 15
             | Some w \<Rightarrow> getDetailLevelTime (detailLevelPerSight w));
          totalSightTime = int (length tourStops) * sightTimePerStop
      in \<lparr> tour_id = show_nat (dateNow env),
           tour_name =
             (case wizardSettings of
                Some w \<Rightarrow>
                  show_nat (numberOfDays w) @ ''-Day '' @
                  toUpperCase (take 1 (transportModeString (transportMode w))) @
                  drop 1 (transportModeString (transportMode w)) @ '' Tour''
              | None \<Rightarrow> show_nat (length tourStops) @ ''-Stop Tour''),
           sights = tourStops,
           totalDistance = totalWalkingDistance,
           estimatedDuration = totalWalkingTime + totalSightTime,
           createdAt = newDate env \<rparr>)"

section \<open>Tour store\<close>

datatype tour_error = NoSightsFound real | CouldNotCreateTour

definition withinDistance :: "real \<Rightarrow> Sight \<Rightarrow> bool" where
  "withinDistance radius sight =
     (case distance sight of None \<Rightarrow> False | Some dv \<Rightarrow> dv \<le> radius)"

text \<open>Lines 54--63 of \<^verbatim>\<open>generateTour\<close>: the filter by interest level.\<close>

definition filterByTier :: "TourWizardSettings option \<Rightarrow> Sight list \<Rightarrow> Sight list" where
  "filterByTier wizardSettings availableSights =
     (case wizardSettings of
        None \<Rightarrow> availableSights
      | Some w \<Rightarrow> filter (\<lambda>sight. tier sight \<in> set (interestLevel w)) availableSights)"

text \<open>Lines 65--85 of \<^verbatim>\<open>generateTour\<close>: the candidates handed to the optimizer.\<close>

definition selectNearSights ::
  "real \<Rightarrow> Sight list \<Rightarrow> TourWizardSettings option \<Rightarrow> tour_error + Sight list" where
  "selectNearSights maxDistance availableSights wizardSettings =
     (let filteredSights = filterByTier wizardSettings availableSights;
          nearSights = filter (withinDistance maxDistance) filteredSights
      in if length nearSights = 0 then
           (let expandedSights = filter (withinDistance (maxDistance * 1.5)) filteredSights
            in if length expandedSights = 0 then Inl (NoSightsFound (maxDistance * 1.5))
               else (let sortedSights = sort_key distanceOrZero expandedSights
                     in Inr (nearSights @ take (min 8 (length sortedSights)) sortedSights)))
         else Inr nearSights)"

text \<open>Lines 87--96: the choice of the optimizer.\<close>

definition optimizedRouteOf ::
  "distance_fn \<Rightarrow> Env \<Rightarrow> location \<Rightarrow> Sight list \<Rightarrow> real \<Rightarrow>
   TourWizardSettings option \<Rightarrow> Sight list" where
  "optimizedRouteOf cd env userLocation nearSights maxDistance wizardSettings =
     (if openAiApiKey env \<noteq> [] \<and> length nearSights > 3
      then optimizeTourWithAI cd (llmResponse env) userLocation nearSights maxDistance wizardSettings
      else optimizeTourSimple cd userLocation nearSights maxDistance wizardSettings)"

text \<open>The \<^verbatim>\<open>try\<close> block of \<^verbatim>\<open>generateTour\<close> (lines 50--149), up to the tour it publishes.\<close>

definition generateTourTry ::
  "distance_fn \<Rightarrow> Env \<Rightarrow> location \<Rightarrow> real \<Rightarrow> Sight list \<Rightarrow>
   TourWizardSettings option \<Rightarrow> tour_error + Tour" where
  "generateTourTry cd env userLocation maxDistance availableSights wizardSettings =
     (case selectNearSights maxDistance availableSights wizardSettings of
        Inl e \<Rightarrow> Inl e
      | Inr nearSights \<Rightarrow>
          (let optimizedRoute =
                 optimizedRouteOf cd env userLocation nearSights maxDistance wizardSettings
           in if length optimizedRoute = 0 then Inl CouldNotCreateTour
              else Inr (assembleTour cd env wizardSettings optimizedRoute)))"

text \<open>
  \<^verbatim>\<open>generateTour\<close> with every store state it publishes through \<^verbatim>\<open>set\<close>, in order: the
  busy flag raised, the new tour (on success), and the \<^verbatim>\<open>finally\<close> block. The error, if
  any, is rethrown to the caller after the last one.
\<close>

definition generateTourTrace ::
  "distance_fn \<Rightarrow> Env \<Rightarrow> location \<Rightarrow> real \<Rightarrow> Sight list \<Rightarrow>
   TourWizardSettings option \<Rightarrow> TourState \<Rightarrow> tour_error option \<times> TourState list" where
  "generateTourTrace cd env userLocation maxDistance availableSights wizardSettings st =
     (let st1 = st\<lparr>isGenerating := True\<rparr>
      in case generateTourTry cd env userLocation maxDistance availableSights wizardSettings of
           Inl e \<Rightarrow> (Some e, [st1, st1\<lparr>isGenerating := False\<rparr>])
         | Inr tour \<Rightarrow>
             (let st2 = st1\<lparr>currentTour := Some tour\<rparr>
              in (None, [st1, st2, st2\<lparr>isGenerating := False\<rparr>])))"

definition generateTour ::
  "distance_fn \<Rightarrow> Env \<Rightarrow> location \<Rightarrow> real \<Rightarrow> Sight list \<Rightarrow>
   TourWizardSettings option \<Rightarrow> TourState \<Rightarrow> tour_error option \<times> TourState" where
  "generateTour cd env userLocation maxDistance availableSights wizardSettings st =
     (let tr = generateTourTrace cd env userLocation maxDistance availableSights wizardSettings st
      in (fst tr, last (snd tr)))"

fun findIndex :: "('a \<Rightarrow> bool) \<Rightarrow> 'a list \<Rightarrow> int" where
  "findIndex P [] = - 1"
| "findIndex P (x # xs) =
     (if P x then 0 else (let i = findIndex P xs in if i < 0 then - 1 else i + 1))"

definition saveTour :: "string \<Rightarrow> TourState \<Rightarrow> TourState" where
  "saveTour name' st =
     (case currentTour st of
        None \<Rightarrow> st
      | Some cur \<Rightarrow>
          (let tourToSave = cur\<lparr>tour_name := (if name' \<noteq> [] then name' else tour_name cur)\<rparr>;
               existingIndex = findIndex (\<lambda>tour. tour_id tour = tour_id tourToSave) (savedTours st)
           in if existingIndex \<ge> 0
              then st\<lparr>savedTours := (savedTours st)[nat existingIndex := tourToSave]\<rparr>
              else st\<lparr>savedTours := savedTours st @ [tourToSave]\<rparr>))"

definition loadTour :: "string \<Rightarrow> TourState \<Rightarrow> TourState" where
  "loadTour tourId st =
     (case find (\<lambda>t. tour_id t = tourId) (savedTours st) of
        None \<Rightarrow> st
      | Some tour \<Rightarrow> st\<lparr>currentTour := Some tour\<rparr>)"

definition deleteTour :: "string \<Rightarrow> TourState \<Rightarrow> TourState" where
  "deleteTour tourId st = st\<lparr>savedTours := filter (\<lambda>tour. tour_id tour \<noteq> tourId) (savedTours st)\<rparr>"

definition clearTour :: "TourState \<Rightarrow> TourState" where
  "clearTour st = st\<lparr>currentTour := None\<rparr>"

section \<open>Notions used to state the properties of a route\<close>

text \<open>
  The distance accumulated along a route: the sum of the distances between consecutive
  stops, which is what \<^verbatim>\<open>totalDistance\<close> holds in the loop of \<^verbatim>\<open>optimizeTourSimple\<close>
  once the route has been built.
\<close>

fun legsLength :: "distance_fn \<Rightarrow> Sight list \<Rightarrow> real" where
  "legsLength cd (a # b # rest) =
     cd (latitude a) (longitude a) (latitude b) (longitude b) + legsLength cd (b # rest)"
| "legsLength cd [a] = 0"
| "legsLength cd [] = 0"

text \<open>
  The left-hand side of the budget test for a candidate, given the route built so far:
  accumulated distance, plus the distance from the last stop to the candidate, plus half
  the distance from the candidate back to the origin.
\<close>

definition budgetTerm :: "distance_fn \<Rightarrow> location \<Rightarrow> Sight list \<Rightarrow> Sight \<Rightarrow> real" where
  "budgetTerm cd userLocation route candidate =
     legsLength cd route
     + cd (latitude (last route)) (longitude (last route)) (latitude candidate) (longitude candidate)
     + cd (latitude candidate) (longitude candidate) (fst userLocation) (snd userLocation) * 0.5"

text \<open>
  The nearest remaining candidate, given the route built so far: among the sights whose
  identifier is not yet on the route, the first one at the least distance from the last
  stop; none when every identifier is on the route.
\<close>

definition nextCandidate :: "distance_fn \<Rightarrow> Sight list \<Rightarrow> Sight list \<Rightarrow> Sight option" where
  "nextCandidate cd sights' route =
     (case filter (\<lambda>sight. sight_id sight \<notin> sight_id ` set route) sights' of
        [] \<Rightarrow> None
      | u # us \<Rightarrow>
          Some (foldl (closerSight cd (latitude (last route), longitude (last route))) u us))"

text \<open>
  \<open>nearestTo cd loc xs n\<close>: \<open>n\<close> is the nearest of the sights \<open>xs\<close> to the location
  \<open>loc\<close>, measured by \<open>cd\<close>: it occurs in \<open>xs\<close>, no sight of \<open>xs\<close> is closer, and
  every sight before it in \<open>xs\<close> is strictly farther (of several nearest sights it is the
  first).
\<close>

definition nearestTo :: "distance_fn \<Rightarrow> location \<Rightarrow> Sight list \<Rightarrow> Sight \<Rightarrow> bool" where
  "nearestTo cd loc xs n =
     (\<exists>i < length xs. xs ! i = n \<and>
        (\<forall>j < i. cd (fst loc) (snd loc) (latitude n) (longitude n)
                  < cd (fst loc) (snd loc) (latitude (xs ! j)) (longitude (xs ! j))) \<and>
        (\<forall>j < length xs. cd (fst loc) (snd loc) (latitude n) (longitude n)
                  \<le> cd (fst loc) (snd loc) (latitude (xs ! j)) (longitude (xs ! j))))"

text \<open>
  The candidates not yet visited, given the route built so far: the sights whose identifier
  is not the identifier of a stop of the route, in their original order.
\<close>

definition unvisitedOf :: "Sight list \<Rightarrow> Sight list \<Rightarrow> Sight list" where
  "unvisitedOf sights' route = filter (\<lambda>sight. sight_id sight \<notin> sight_id ` set route) sights'"

text \<open>The invariant of the loop, and what its result satisfies.\<close>

definition loopInv ::
  "distance_fn \<Rightarrow> Sight list \<Rightarrow> sight_id list \<Rightarrow> Sight list \<Rightarrow> location \<Rightarrow> real \<Rightarrow> bool" where
  "loopInv cd sights' visited route currentLocation totalDist =
     (route \<noteq> [] \<and> distinct visited \<and> set visited = sight_id ` set route \<and>
      length visited = length route \<and> length route \<le> 8 \<and> set route \<subseteq> set sights' \<and>
      currentLocation = (latitude (last route), longitude (last route)) \<and>
      totalDist = legsLength cd route)"

definition loopPost ::
  "distance_fn \<Rightarrow> location \<Rightarrow> Sight list \<Rightarrow> real \<Rightarrow> Sight list \<Rightarrow> Sight list \<Rightarrow> bool" where
  "loopPost cd userLocation sights' maxDistance route r =
     (take (length route) r = route \<and> length route \<le> length r \<and> length r \<le> 8 \<and>
      (\<forall>k. length route \<le> k \<and> k < length r \<longrightarrow>
           nextCandidate cd sights' (take k r) = Some (r ! k) \<and>
           budgetTerm cd userLocation (take k r) (r ! k) \<le> maxDistance * 0.9) \<and>
      (nextCandidate cd sights' r = None \<or> length r = 8 \<or>
       (\<exists>n. nextCandidate cd sights' r = Some n \<and>
            budgetTerm cd userLocation r n > maxDistance * 0.9)))"

section \<open>Sample data\<close>

text \<open>
  A distance function for the concrete runs below: 111 km per degree along each axis,
  which is the great-circle distance between two points of the equator to within 0.2
  percent. All sample sights lie on the equator, east or west of the user at (0, 0).
\<close>

definition grid_km :: distance_fn where
  "grid_km lat1 lon1 lat2 lon2 = 111 * (\<bar>lat2 - lat1\<bar> + \<bar>lon2 - lon1\<bar>)"

definition mkSight :: "string \<Rightarrow> real \<Rightarrow> real \<Rightarrow> real option \<Rightarrow> nat \<Rightarrow> Sight" where
  "mkSight nm lat lon d t =
     \<lparr> sight_id = StrId nm, sight_name = nm, category = ''museum'', latitude = lat,
       longitude = lon, distance = d, imageUrl = [], yearBuilt = None,
       briefDescription = [], fullDescription = [], briefDescriptionDE = [],
       fullDescriptionDE = [], rating = None, placeId = None, tier = t, savedContent = None \<rparr>"

definition sampleEnv :: Env where
  "sampleEnv = \<lparr> openAiApiKey = [], llmResponse = FetchRejected,
                 dateNow = 1700000000000, newDate = 1700000000001 \<rparr>"

definition sampleState :: TourState where
  "sampleState = \<lparr> currentTour = None, savedTours = [], isGenerating = False, tourDistance = 5 \<rparr>"

definition sampleSettings :: TourWizardSettings where
  "sampleSettings = \<lparr> numberOfDays = 1, dailyDurationHours = 2, maxLengthKm = 5,
                      transportMode = Walk, interestLevel = [1, 2], tourType = RoundTrip,
                      detailLevelPerSight = Medium \<rparr>"

definition sA :: Sight where "sA = mkSight ''A'' 0 0.001 (Some 0.11) 1"

definition sB :: Sight where "sB = mkSight ''B'' 0 0.002 (Some 0.22) 1"

definition sC :: Sight where "sC = mkSight ''C'' 0 0.02 (Some 2.22) 1"

definition sD :: Sight where "sD = mkSight ''D'' 0 0.011 (Some 1.22) 1"

definition sE :: Sight where "sE = mkSight ''E'' 0 (- 0.012) (Some 1.33) 1"

definition sF :: Sight where "sF = mkSight ''F'' 0 (- 0.001) (Some 0.11) 1"

definition sG :: Sight where "sG = mkSight ''G'' 0 0.001 None 1"

definition sampleEnvKey :: Env where
  "sampleEnvKey = sampleEnv\<lparr>openAiApiKey := ''sk-sample''\<rparr>"

definition sampleTour :: Tour where
  "sampleTour = assembleTour grid_km sampleEnv (Some sampleSettings) [sA, sB]"

definition sampleOtherTour :: Tour where
  "sampleOtherTour = sampleTour\<lparr>tour_id := CHR ''9'' # tour_id sampleTour, tour_name := ''Old town''\<rparr>"

definition sampleSavedState :: TourState where
  "sampleSavedState =
     \<lparr> currentTour = Some sampleTour,
       savedTours = [sampleOtherTour, sampleTour\<lparr>tour_name := ''Draft''\<rparr>],
       isGenerating = False, tourDistance = 5 \<rparr>"

section \<open>Heuristic route optimizer: results\<close>

lemma foldl_closerSight_mem:
  "foldl (closerSight cd c) a xs \<in> insert a (set xs)"
proof (induction xs arbitrary: a)
  case Nil
  show ?case by simp
next
  case (Cons x xs)
  have "closerSight cd c a x \<in> {a, x}"
    by (simp add: closerSight_def Let_def)
  with Cons.IH [of "closerSight cd c a x"] show ?case by auto
qed

lemma legsLength_snoc:
  "route \<noteq> [] \<Longrightarrow>
   legsLength cd (route @ [n]) =
     legsLength cd route + cd (latitude (last route)) (longitude (last route)) (latitude n) (longitude n)"
proof (induction cd route rule: legsLength.induct)
  case (1 cd a b rest)
  then show ?case by simp
next
  case (2 cd a)
  show ?case by simp
next
  case (3 cd)
  then show ?case by simp
qed

lemma all_visited_no_candidate:
  assumes "distinct visited" "set visited = sight_id ` set route" "set route \<subseteq> set sights'"
    and "\<not> length visited < length sights'"
  shows "filter (\<lambda>sight. sight_id sight \<notin> sight_id ` set route) sights' = []"
proof -
  have sub: "sight_id ` set route \<subseteq> sight_id ` set sights'"
    using assms(3) by auto
  have "card (sight_id ` set sights') \<le> length sights'"
    by (metis card_image_le card_length le_trans List.finite_set)
  also have "\<dots> \<le> length visited" using assms(4) by simp
  also have "\<dots> = card (sight_id ` set route)"
    using assms(1,2) distinct_card by metis
  finally have "sight_id ` set route = sight_id ` set sights'"
    using sub by (simp add: card_seteq)
  then show ?thesis by (auto simp: filter_empty_conv)
qed

lemma loop_step_inv:
  assumes inv: "loopInv cd sights' visited route cur totalDist"
    and lt: "length visited < 8"
    and flt: "filter (\<lambda>sight. sight_id sight \<notin> set visited) sights' = u # us"
    and n: "n = foldl (closerSight cd cur) u us"
  shows "loopInv cd sights' (List.insert (sight_id n) visited) (route @ [n])
           (latitude n, longitude n)
           (totalDist + cd (fst cur) (snd cur) (latitude n) (longitude n))"
proof -
  have "n \<in> set (u # us)" using foldl_closerSight_mem [of cd cur u us] n by simp
  then have "n \<in> set (filter (\<lambda>sight. sight_id sight \<notin> set visited) sights')"
    using flt by simp
  then have nin: "n \<in> set sights'" and nv: "sight_id n \<notin> set visited" by auto
  show ?thesis
    using inv lt nin nv
    by (auto simp: loopInv_def legsLength_snoc)
qed

lemma loop_post:
  "loopInv cd sights' visited route cur totalDist \<Longrightarrow>
   loopPost cd userLocation sights' maxDistance route
     (nearestNeighbourLoop cd userLocation sights' maxDistance visited route cur totalDist)"
proof (induction cd userLocation sights' maxDistance visited route cur totalDist
       rule: nearestNeighbourLoop.induct)
  case (1 cd userLocation sights' maxDistance visited route cur totalDist)
  note inv = "1.prems"
  let ?r = "nearestNeighbourLoop cd userLocation sights' maxDistance visited route cur totalDist"
  have vis: "set visited = sight_id ` set route" using inv by (simp add: loopInv_def)
  show ?case
  proof (cases "length visited < length sights' \<and> length visited < 8")
    case False
    then have r: "?r = route" by (subst nearestNeighbourLoop.simps) auto
    have "nextCandidate cd sights' route = None \<or> length route = 8"
    proof (cases "length visited < length sights'")
      case True
      with False inv show ?thesis by (auto simp: loopInv_def)
    next
      case nl: False
      have "filter (\<lambda>sight. sight_id sight \<notin> sight_id ` set route) sights' = []"
        using all_visited_no_candidate [of visited route sights'] inv nl
        by (simp add: loopInv_def)
      then show ?thesis by (simp add: nextCandidate_def)
    qed
    then show ?thesis using inv r by (auto simp: loopPost_def loopInv_def)
  next
    case cont: True
    show ?thesis
    proof (cases "filter (\<lambda>sight. sight_id sight \<notin> set visited) sights'")
      case Nil
      then have r: "?r = route" by (subst nearestNeighbourLoop.simps) auto
      have "nextCandidate cd sights' route = None"
        using Nil vis by (simp add: nextCandidate_def)
      then show ?thesis using inv r by (auto simp: loopPost_def loopInv_def)
    next
      case (Cons u us)
      define n where "n = foldl (closerSight cd cur) u us"
      define dn where "dn = cd (fst cur) (snd cur) (latitude n) (longitude n)"
      define er where "er = cd (latitude n) (longitude n) (fst userLocation) (snd userLocation) * 0.5"
      have cur: "cur = (latitude (last route), longitude (last route))"
        and tot: "totalDist = legsLength cd route"
        using inv by (simp_all add: loopInv_def)
      have nc: "nextCandidate cd sights' route = Some n"
        using Cons vis cur by (simp add: nextCandidate_def n_def)
      have bt: "budgetTerm cd userLocation route n = totalDist + dn + er"
        using cur tot by (simp add: budgetTerm_def dn_def er_def)
      show ?thesis
      proof (cases "totalDist + dn + er > maxDistance * 0.9")
        case True
        then have r: "?r = route"
          using cont Cons
          by (subst nearestNeighbourLoop.simps) (simp add: Let_def n_def dn_def er_def)
        show ?thesis using inv r nc bt True by (auto simp: loopPost_def loopInv_def)
      next
        case ok: False
        let ?r' = "nearestNeighbourLoop cd userLocation sights' maxDistance
                     (List.insert (sight_id n) visited) (route @ [n])
                     (latitude n, longitude n) (totalDist + dn)"
        have r: "?r = ?r'"
          using cont Cons ok
          by (subst nearestNeighbourLoop.simps) (simp add: Let_def n_def dn_def er_def)
        have inv': "loopInv cd sights' (List.insert (sight_id n) visited) (route @ [n])
                      (latitude n, longitude n) (totalDist + dn)"
          unfolding dn_def
          using loop_step_inv [OF inv _ Cons n_def] cont by simp
        have post': "loopPost cd userLocation sights' maxDistance (route @ [n]) ?r'"
          using "1.IH" [OF cont Cons n_def [symmetric, THEN sym] dn_def er_def] ok inv'
          unfolding n_def dn_def er_def
          by simp
        have tk: "take (Suc (length route)) ?r' = route @ [n]"
          and len: "Suc (length route) \<le> length ?r'" and len8: "length ?r' \<le> 8"
          using post' by (simp_all add: loopPost_def)
        have "take (length route) (take (Suc (length route)) ?r') = take (length route) (route @ [n])"
          using tk by simp
        then have tk0: "take (length route) ?r' = route"
          by (simp add: min_def)
        have nth: "?r' ! length route = n"
          using tk len by (metis nth_append_length nth_take lessI)
        have "loopPost cd userLocation sights' maxDistance route ?r'"
          unfolding loopPost_def
        proof (intro conjI allI impI)
          show "take (length route) ?r' = route" by (rule tk0)
          show "length route \<le> length ?r'" using len by simp
          show "length ?r' \<le> 8" by (rule len8)
          show "nextCandidate cd sights' ?r' = None \<or> length ?r' = 8 \<or>
                (\<exists>n. nextCandidate cd sights' ?r' = Some n \<and>
                   maxDistance * 0.9 < budgetTerm cd userLocation ?r' n)"
            using post' by (simp add: loopPost_def)
        next
          fix k assume k: "length route \<le> k \<and> k < length ?r'"
          show "nextCandidate cd sights' (take k ?r') = Some (?r' ! k)"
          proof (cases "k = length route")
            case True
            then show ?thesis using tk0 nth nc by simp
          next
            case False
            then show ?thesis using k post' by (simp add: loopPost_def)
          qed
          show "budgetTerm cd userLocation (take k ?r') (?r' ! k) \<le> maxDistance * 0.9"
          proof (cases "k = length route")
            case True
            then show ?thesis using tk0 nth bt ok by simp
          next
            case False
            then show ?thesis using k post' by (simp add: loopPost_def)
          qed
        qed
        then show ?thesis using r by simp
      qed
    qed
  qed
qed


lemma first_least_snoc:
  fixes d :: "'a \<Rightarrow> real"
  assumes i: "i < length ys" and before: "\<forall>j < i. d (ys ! i) < d (ys ! j)"
    and all: "\<forall>j < length ys. d (ys ! i) \<le> d (ys ! j)"
  shows "\<exists>k < length (ys @ [x]).
           (ys @ [x]) ! k = (if d x < d (ys ! i) then x else ys ! i) \<and>
           (\<forall>j < k. d ((ys @ [x]) ! k) < d ((ys @ [x]) ! j)) \<and>
           (\<forall>j < length (ys @ [x]). d ((ys @ [x]) ! k) \<le> d ((ys @ [x]) ! j))"
proof (cases "d x < d (ys ! i)")
  case True
  have "\<forall>j < length ys. d x < d (ys ! j)"
  proof (intro allI impI)
    fix j assume "j < length ys"
    with all have "d (ys ! i) \<le> d (ys ! j)" by simp
    with True show "d x < d (ys ! j)" by simp
  qed
  then have a: "\<forall>j < length ys. d ((ys @ [x]) ! length ys) < d ((ys @ [x]) ! j)"
    by (simp add: nth_append)
  then have b: "\<forall>j < length (ys @ [x]). d ((ys @ [x]) ! length ys) \<le> d ((ys @ [x]) ! j)"
    by (simp add: nth_append less_Suc_eq less_imp_le)
  show ?thesis
    using True a b by (intro exI [of _ "length ys"]) simp
next
  case False
  have a: "\<forall>j < i. d ((ys @ [x]) ! i) < d ((ys @ [x]) ! j)"
    using before i by (simp add: nth_append)
  have b: "\<forall>j < length (ys @ [x]). d ((ys @ [x]) ! i) \<le> d ((ys @ [x]) ! j)"
    using all i False by (simp add: nth_append less_Suc_eq)
  show ?thesis
    using False a b i by (intro exI [of _ i]) (simp add: nth_append)
qed

lemma foldl_closerSight_nearest:
  "nearestTo cd loc (a # xs) (foldl (closerSight cd loc) a xs)"
proof (induction xs rule: rev_induct)
  case Nil
  show ?case by (simp add: nearestTo_def)
next
  case (snoc x xs)
  define d where "d = (\<lambda>s :: Sight. cd (fst loc) (snd loc) (latitude s) (longitude s))"
  define m where "m = foldl (closerSight cd loc) a xs"
  define ys where "ys = a # xs"
  from snoc obtain i where i: "i < length ys" and mi: "ys ! i = m"
    and before: "\<forall>j < i. d m < d (ys ! j)"
    and all: "\<forall>j < length ys. d m \<le> d (ys ! j)"
    unfolding nearestTo_def m_def d_def ys_def by blast
  have f: "foldl (closerSight cd loc) a (xs @ [x]) = (if d x < d (ys ! i) then x else ys ! i)"
    by (simp add: closerSight_def Let_def m_def d_def mi)
  from first_least_snoc [of i ys d x] i before all mi
  have "\<exists>k < length (ys @ [x]).
           (ys @ [x]) ! k = (if d x < d (ys ! i) then x else ys ! i) \<and>
           (\<forall>j < k. d ((ys @ [x]) ! k) < d ((ys @ [x]) ! j)) \<and>
           (\<forall>j < length (ys @ [x]). d ((ys @ [x]) ! k) \<le> d ((ys @ [x]) ! j))"
    by simp
  then obtain k where k: "k < length (ys @ [x])"
    and kn: "(ys @ [x]) ! k = foldl (closerSight cd loc) a (xs @ [x])"
    and kb: "\<forall>j < k. d ((ys @ [x]) ! k) < d ((ys @ [x]) ! j)"
    and ka: "\<forall>j < length (ys @ [x]). d ((ys @ [x]) ! k) \<le> d ((ys @ [x]) ! j)"
    unfolding f by blast
  have e: "ys @ [x] = a # xs @ [x]" by (simp add: ys_def)
  show ?case
    unfolding nearestTo_def
    using k kn kb ka unfolding e d_def
    by (intro exI [of _ k]) simp
qed

lemma nextCandidate_Some_nearest:
  assumes "nextCandidate cd sights' route = Some n"
  shows "nearestTo cd (latitude (last route), longitude (last route)) (unvisitedOf sights' route) n"
proof -
  from assms obtain u us where
    f: "filter (\<lambda>sight. sight_id sight \<notin> sight_id ` set route) sights' = u # us"
    and n: "n = foldl (closerSight cd (latitude (last route), longitude (last route))) u us"
    by (auto simp: nextCandidate_def split: list.splits)
  show ?thesis
    unfolding unvisitedOf_def f n by (rule foldl_closerSight_nearest)
qed

lemma nextCandidate_None_all_visited:
  assumes "nextCandidate cd sights' route = None"
  shows "\<forall>s \<in> set sights'. sight_id s \<in> sight_id ` set route"
proof -
  from assms have "filter (\<lambda>sight. sight_id sight \<notin> sight_id ` set route) sights' = []"
    by (auto simp: nextCandidate_def split: list.splits)
  then show ?thesis by (auto simp: filter_empty_conv)
qed

lemma nearestTo_mem: "nearestTo cd loc xs n \<Longrightarrow> n \<in> set xs"
  by (auto simp: nearestTo_def)

lemma optimizeTourSimple_post:
  assumes "length sights' > 1"
  shows "\<exists>c. nearestTo cd userLocation sights' c \<and>
             loopPost cd userLocation sights' maxDistance [c]
               (optimizeTourSimple cd userLocation sights' maxDistance ws)"
proof -
  from assms obtain s rest where sr: "sights' = s # rest" by (cases sights') auto
  define c where "c = foldl (closerSight cd userLocation) s rest"
  have near: "nearestTo cd userLocation sights' c"
    unfolding sr c_def by (rule foldl_closerSight_nearest)
  then have cin: "c \<in> set sights'" by (rule nearestTo_mem)
  have inv: "loopInv cd sights' [sight_id c] [c] (latitude c, longitude c) 0"
    using cin by (simp add: loopInv_def)
  have "optimizeTourSimple cd userLocation sights' maxDistance ws =
          nearestNeighbourLoop cd userLocation sights' maxDistance [sight_id c] [c]
            (latitude c, longitude c) 0"
    using assms by (simp add: optimizeTourSimple_def sr c_def Let_def)
  with loop_post [OF inv, of userLocation maxDistance] near show ?thesis by auto
qed

text \<open>
  C1: for a non-empty candidate list the route of \<^verbatim>\<open>optimizeTourSimple\<close> is non-empty and
  has at most 8 stops, and its first stop is the candidate nearest to the origin. Every stop
  after the first was, when it was added, the nearest of the candidates not yet visited to
  the stop before it, and satisfied accumulated distance + distance to it + 0.5 times its
  distance to the origin \<open>\<le>\<close> 0.9 times the budget. The route ends because every
  candidate is visited, or it has 8 stops, or the nearest candidate not yet visited breaks
  that inequality (and is not on the route).
\<close>

theorem optimizeTourSimple_budget_rule:
  assumes "sights' \<noteq> []"
  shows "let r = optimizeTourSimple cd userLocation sights' maxDistance ws in
         r \<noteq> [] \<and> length r \<le> 8 \<and>
         nearestTo cd userLocation sights' (r ! 0) \<and>
         (\<forall>k. 1 \<le> k \<and> k < length r \<longrightarrow>
            nearestTo cd (latitude (r ! (k - 1)), longitude (r ! (k - 1)))
              (unvisitedOf sights' (take k r)) (r ! k) \<and>
            legsLength cd (take k r)
              + cd (latitude (r ! (k - 1))) (longitude (r ! (k - 1)))
                   (latitude (r ! k)) (longitude (r ! k))
              + cd (latitude (r ! k)) (longitude (r ! k)) (fst userLocation) (snd userLocation) * 0.5
              \<le> maxDistance * 0.9) \<and>
         ((\<forall>s \<in> set sights'. sight_id s \<in> sight_id ` set r) \<or>
          length r = 8 \<or>
          (\<exists>n. nearestTo cd (latitude (last r), longitude (last r)) (unvisitedOf sights' r) n \<and>
               n \<notin> set r \<and>
               legsLength cd r
                 + cd (latitude (last r)) (longitude (last r)) (latitude n) (longitude n)
                 + cd (latitude n) (longitude n) (fst userLocation) (snd userLocation) * 0.5
                 > maxDistance * 0.9))"
proof (cases "length sights' > 1")
  case True
  define r where "r = optimizeTourSimple cd userLocation sights' maxDistance ws"
  from optimizeTourSimple_post [OF True, of cd userLocation maxDistance ws]
  obtain c where near: "nearestTo cd userLocation sights' c"
    and post: "loopPost cd userLocation sights' maxDistance [c] r"
    unfolding r_def by blast
  from post have tk: "take 1 r = [c]" and len1: "1 \<le> length r" and len8: "length r \<le> 8"
    and steps: "\<forall>k. 1 \<le> k \<and> k < length r \<longrightarrow>
           nextCandidate cd sights' (take k r) = Some (r ! k) \<and>
           budgetTerm cd userLocation (take k r) (r ! k) \<le> maxDistance * 0.9"
    and stop: "nextCandidate cd sights' r = None \<or> length r = 8 \<or>
       (\<exists>n. nextCandidate cd sights' r = Some n \<and>
            budgetTerm cd userLocation r n > maxDistance * 0.9)"
    by (simp_all add: loopPost_def)
  have ne: "r \<noteq> []" using len1 by auto
  have r0: "r ! 0 = c"
    using tk ne by (cases r) simp_all
  have lastk: "last (take k r) = r ! (k - 1)" if "1 \<le> k" "k < length r" for k
  proof -
    from that have "take k r \<noteq> []" using ne by auto
    then have "last (take k r) = take k r ! (length (take k r) - 1)" by (rule last_conv_nth)
    also have "\<dots> = r ! (k - 1)" using that by simp
    finally show ?thesis .
  qed
  have A: "nearestTo cd (latitude (r ! (k - 1)), longitude (r ! (k - 1)))
              (unvisitedOf sights' (take k r)) (r ! k) \<and>
            legsLength cd (take k r)
              + cd (latitude (r ! (k - 1))) (longitude (r ! (k - 1)))
                   (latitude (r ! k)) (longitude (r ! k))
              + cd (latitude (r ! k)) (longitude (r ! k)) (fst userLocation) (snd userLocation) * 0.5
              \<le> maxDistance * 0.9"
    if k: "1 \<le> k \<and> k < length r" for k
  proof -
    from steps k have nc: "nextCandidate cd sights' (take k r) = Some (r ! k)"
      and b: "budgetTerm cd userLocation (take k r) (r ! k) \<le> maxDistance * 0.9"
      by simp_all
    from nextCandidate_Some_nearest [OF nc] b lastk [of k] k
    show ?thesis by (simp add: budgetTerm_def)
  qed
  have B: "(\<forall>s \<in> set sights'. sight_id s \<in> sight_id ` set r) \<or>
          length r = 8 \<or>
          (\<exists>n. nearestTo cd (latitude (last r), longitude (last r)) (unvisitedOf sights' r) n \<and>
               n \<notin> set r \<and>
               legsLength cd r
                 + cd (latitude (last r)) (longitude (last r)) (latitude n) (longitude n)
                 + cd (latitude n) (longitude n) (fst userLocation) (snd userLocation) * 0.5
                 > maxDistance * 0.9)"
  proof -
    from stop consider "nextCandidate cd sights' r = None" | "length r = 8"
      | n where "nextCandidate cd sights' r = Some n"
          "budgetTerm cd userLocation r n > maxDistance * 0.9"
      by auto
    then show ?thesis
    proof cases
      case 1
      from nextCandidate_None_all_visited [OF 1] show ?thesis by blast
    next
      case 2
      then show ?thesis by blast
    next
      case 3
      from nextCandidate_Some_nearest [OF 3(1)]
      have near': "nearestTo cd (latitude (last r), longitude (last r)) (unvisitedOf sights' r) n" .
      from nearestTo_mem [OF near'] have "n \<notin> set r" by (auto simp: unvisitedOf_def)
      with near' 3(2) show ?thesis unfolding budgetTerm_def by blast
    qed
  qed
  from ne len8 near r0 A B show ?thesis
    unfolding Let_def r_def [symmetric] by blast
next
  case False
  with assms obtain s where s: "sights' = [s]" by (cases sights') auto
  have r: "optimizeTourSimple cd userLocation sights' maxDistance ws = [s]"
    by (simp add: optimizeTourSimple_def s)
  show ?thesis unfolding Let_def r by (simp add: s nearestTo_def)
qed

theorem optimizeTourSimple_budget_rule_witness:
  "[sC, sB, sA] \<noteq> [] \<and>
   optimizeTourSimple grid_km (0, 0) [sC, sB, sA] 1 None = [sA, sB] \<and>
   grid_km 0 0 (latitude sC) (longitude sC) = 2.22 \<and>
   grid_km 0 0 (latitude sB) (longitude sB) = 0.222 \<and>
   grid_km 0 0 (latitude sA) (longitude sA) = 0.111 \<and>
   unvisitedOf [sC, sB, sA] [sA] = [sC, sB] \<and>
   grid_km (latitude sA) (longitude sA) (latitude sC) (longitude sC) = 2.109 \<and>
   grid_km (latitude sA) (longitude sA) (latitude sB) (longitude sB) = 0.111 \<and>
   legsLength grid_km [sA]
     + grid_km (latitude sA) (longitude sA) (latitude sB) (longitude sB)
     + grid_km (latitude sB) (longitude sB) 0 0 * 0.5 = 0.222 \<and>
   unvisitedOf [sC, sB, sA] [sA, sB] = [sC] \<and>
   legsLength grid_km [sA, sB]
     + grid_km (latitude sB) (longitude sB) (latitude sC) (longitude sC)
     + grid_km (latitude sC) (longitude sC) 0 0 * 0.5 = 3.219"
  using optimizeTourSimple_budget_rule [of "[sC, sB, sA]" grid_km "(0, 0)" 1 None]
  by (simp add: optimizeTourSimple_def closerSight_def grid_km_def sA_def sB_def sC_def mkSight_def
        unvisitedOf_def Let_def)

section \<open>Tour assembler and store: auxiliary facts\<close>

lemma toTourStop_sight [simp]:
  "latitude (toTourStop cd ws route i s) = latitude s"
  "longitude (toTourStop cd ws route i s) = longitude s"
  "distance (toTourStop cd ws route i s) = distance s"
  "sight_id (toTourStop cd ws route i s) = sight_id s"
  "sight_name (toTourStop cd ws route i s) = sight_name s"
  "order (toTourStop cd ws route i s) = i + 1"
  by (cases s; simp add: toTourStop_def Sight.defs TourStop.defs Let_def)+

lemma toTourStop_truncate: "Sight.truncate (toTourStop cd ws route i s) = s"
  by (cases s) (simp add: toTourStop_def Sight.defs TourStop.defs Let_def)

lemma toTourStop_next:
  "i + 1 < length route \<Longrightarrow>
   distanceToNext (toTourStop cd ws route i s) =
     Some (cd (latitude s) (longitude s) (latitude (route ! (i + 1))) (longitude (route ! (i + 1)))) \<and>
   walkingTimeToNext (toTourStop cd ws route i s) =
     Some \<lceil>cd (latitude s) (longitude s) (latitude (route ! (i + 1))) (longitude (route ! (i + 1)))
            * (case ws of None \<Rightarrow> 12 | Some w \<Rightarrow> getTransportTimeMultiplier (transportMode w))\<rceil>"
  by (cases s) (simp add: toTourStop_def Sight.defs TourStop.defs Let_def)

lemma toTourStop_last:
  "\<not> i + 1 < length route \<Longrightarrow>
   distanceToNext (toTourStop cd ws route i s) = Some 0 \<and>
   walkingTimeToNext (toTourStop cd ws route i s) = Some 0"
  by (cases s) (simp add: toTourStop_def Sight.defs TourStop.defs Let_def)

lemma length_tourStopsOf [simp]: "length (tourStopsOf cd ws route) = length route"
  by (simp add: tourStopsOf_def)

lemma nth_tourStopsOf:
  "i < length route \<Longrightarrow> tourStopsOf cd ws route ! i = toTourStop cd ws route i (route ! i)"
  by (simp add: tourStopsOf_def nth_enumerate_eq)

lemma foldl_add_sum_list:
  fixes f :: "'a \<Rightarrow> 'b::comm_monoid_add"
  shows "foldl (\<lambda>sum x. sum + f x) a xs = a + sum_list (map f xs)"
  by (induction xs arbitrary: a) (simp_all add: add.assoc)

lemma assembleTour_fields:
  "sights (assembleTour cd env ws route) = tourStopsOf cd ws route"
  "totalDistance (assembleTour cd env ws route) =
     sum_list (map distanceToNextOrZero (tourStopsOf cd ws route))"
  "estimatedDuration (assembleTour cd env ws route) =
     sum_list (map walkingTimeToNextOrZero (tourStopsOf cd ws route)) +
     int (length route) * (case ws of None \<Rightarrow> 15 | Some w \<Rightarrow> getDetailLevelTime (detailLevelPerSight w))"
  by (simp_all add: assembleTour_def Let_def foldl_add_sum_list)

lemma generateTour_cases:
  "generateTour cd env u m av ws st =
     (case generateTourTry cd env u m av ws of
        Inl e \<Rightarrow> (Some e, st\<lparr>isGenerating := False\<rparr>)
      | Inr tour \<Rightarrow> (None, st\<lparr>currentTour := Some tour, isGenerating := False\<rparr>))"
  by (simp add: generateTour_def generateTourTrace_def Let_def split: sum.splits)

lemma generateTour_success:
  assumes "generateTour cd env u m av ws st = (None, st')"
  shows "\<exists>nearSights.
           selectNearSights m av ws = Inr nearSights \<and>
           optimizedRouteOf cd env u nearSights m ws \<noteq> [] \<and>
           st' = st\<lparr>currentTour := Some (assembleTour cd env ws (optimizedRouteOf cd env u nearSights m ws)),
                    isGenerating := False\<rparr>"
  using assms
  by (auto simp: generateTour_cases generateTourTry_def Let_def split: sum.splits if_splits)

lemma find_update_findIndex:
  "findIndex P xs \<ge> 0 \<Longrightarrow> P y \<Longrightarrow> find P (xs[nat (findIndex P xs) := y]) = Some y"
proof (induction xs)
  case Nil
  then show ?case by simp
next
  case (Cons x xs)
  show ?case
  proof (cases "P x")
    case True
    with Cons.prems show ?thesis by simp
  next
    case False
    with Cons.prems have ge: "findIndex P xs \<ge> 0" by (simp add: Let_def split: if_splits)
    then have "nat (findIndex P xs + 1) = Suc (nat (findIndex P xs))" by simp
    with False ge Cons.IH [OF ge Cons.prems(2)] show ?thesis by (simp add: Let_def)
  qed
qed

lemma find_append_findIndex:
  "\<not> findIndex P xs \<ge> 0 \<Longrightarrow> P y \<Longrightarrow> find P (xs @ [y]) = Some y"
  by (induction xs) (auto simp: Let_def split: if_splits)

lemma tourStop_fields_present:
  assumes "s \<in> set (tourStopsOf cd ws route)"
  shows "distanceToNext s \<noteq> None \<and> walkingTimeToNext s \<noteq> None"
proof -
  from assms obtain i where i: "i < length route" and s: "s = tourStopsOf cd ws route ! i"
    by (auto simp: in_set_conv_nth)
  then have e: "s = toTourStop cd ws route i (route ! i)" by (simp add: nth_tourStopsOf)
  show ?thesis
  proof (cases "i + 1 < length route")
    case True
    from toTourStop_next [OF True, of cd ws "route ! i"] e show ?thesis by simp
  next
    case False
    from toTourStop_last [OF False, of cd ws "route ! i"] e show ?thesis by simp
  qed
qed

lemma tourStops_sums:
  "sum_list (map distanceToNextOrZero (tourStopsOf cd ws route)) =
     sum_list (map (\<lambda>s. the (distanceToNext s)) (tourStopsOf cd ws route))"
  "sum_list (map walkingTimeToNextOrZero (tourStopsOf cd ws route)) =
     sum_list (map (\<lambda>s. the (walkingTimeToNext s)) (tourStopsOf cd ws route))"
proof -
  have d: "distanceToNextOrZero s = the (distanceToNext s)"
    if "s \<in> set (tourStopsOf cd ws route)" for s
    using tourStop_fields_present [OF that]
    by (cases "distanceToNext s") (simp_all add: distanceToNextOrZero_def)
  have w: "walkingTimeToNextOrZero s = the (walkingTimeToNext s)"
    if "s \<in> set (tourStopsOf cd ws route)" for s
    using tourStop_fields_present [OF that]
    by (cases "walkingTimeToNext s") (simp_all add: walkingTimeToNextOrZero_def)
  have "map distanceToNextOrZero (tourStopsOf cd ws route) =
          map (\<lambda>s. the (distanceToNext s)) (tourStopsOf cd ws route)"
    using d by (intro map_cong refl)
  then show "sum_list (map distanceToNextOrZero (tourStopsOf cd ws route)) =
     sum_list (map (\<lambda>s. the (distanceToNext s)) (tourStopsOf cd ws route))"
    by (rule arg_cong)
  have "map walkingTimeToNextOrZero (tourStopsOf cd ws route) =
          map (\<lambda>s. the (walkingTimeToNext s)) (tourStopsOf cd ws route)"
    using w by (intro map_cong refl)
  then show "sum_list (map walkingTimeToNextOrZero (tourStopsOf cd ws route)) =
     sum_list (map (\<lambda>s. the (walkingTimeToNext s)) (tourStopsOf cd ws route))"
    by (rule arg_cong)
qed

lemma findIndex_found:
  "findIndex P xs \<ge> 0 \<Longrightarrow>
   nat (findIndex P xs) < length xs \<and> P (xs ! nat (findIndex P xs)) \<and>
   (\<forall>j < nat (findIndex P xs). \<not> P (xs ! j))"
proof (induction xs)
  case Nil
  then show ?case by simp
next
  case (Cons x xs)
  show ?case
  proof (cases "P x")
    case True
    then show ?thesis by simp
  next
    case False
    with Cons.prems have ge: "findIndex P xs \<ge> 0" by (simp add: Let_def split: if_splits)
    then have e: "nat (findIndex P (x # xs)) = Suc (nat (findIndex P xs))"
      using False by (simp add: Let_def)
    from Cons.IH [OF ge] False show ?thesis
      unfolding e by (auto simp: less_Suc_eq_0_disj)
  qed
qed

lemma findIndex_absent:
  "(findIndex P xs \<ge> 0) = (\<exists>x \<in> set xs. P x)"
  by (induction xs) (auto simp: Let_def)

section \<open>Candidate selection and choice of optimizer: auxiliary facts\<close>

lemma optimizeTourSimple_nonempty:
  assumes "sights' \<noteq> []"
  shows "optimizeTourSimple cd userLocation sights' maxDistance ws \<noteq> []"
proof (cases "length sights' > 1")
  case True
  from optimizeTourSimple_post [OF True, of cd userLocation maxDistance ws]
  obtain c where "loopPost cd userLocation sights' maxDistance [c]
                    (optimizeTourSimple cd userLocation sights' maxDistance ws)"
    by blast
  then have "length [c] \<le> length (optimizeTourSimple cd userLocation sights' maxDistance ws)"
    by (simp add: loopPost_def)
  then show ?thesis by auto
next
  case False
  with assms show ?thesis by (simp add: optimizeTourSimple_def)
qed

lemma nearestNeighbourLoop_subset:
  "set (nearestNeighbourLoop cd userLocation sights' maxDistance visited route cur totalDist)
     \<subseteq> set route \<union> set sights'"
proof (induction cd userLocation sights' maxDistance visited route cur totalDist
       rule: nearestNeighbourLoop.induct)
  case (1 cd userLocation sights' maxDistance visited route cur totalDist)
  let ?r = "nearestNeighbourLoop cd userLocation sights' maxDistance visited route cur totalDist"
  show ?case
  proof (cases "length visited < length sights' \<and> length visited < 8")
    case False
    then have "?r = route" by (subst nearestNeighbourLoop.simps) auto
    then show ?thesis by auto
  next
    case cont: True
    show ?thesis
    proof (cases "filter (\<lambda>sight. sight_id sight \<notin> set visited) sights'")
      case Nil
      then have "?r = route" by (subst nearestNeighbourLoop.simps) auto
      then show ?thesis by auto
    next
      case (Cons u us)
      define n where "n = foldl (closerSight cd cur) u us"
      define dn where "dn = cd (fst cur) (snd cur) (latitude n) (longitude n)"
      define er where "er = cd (latitude n) (longitude n) (fst userLocation) (snd userLocation) * 0.5"
      have "n \<in> set (u # us)" using foldl_closerSight_mem [of cd cur u us] by (simp add: n_def)
      then have "n \<in> set (filter (\<lambda>sight. sight_id sight \<notin> set visited) sights')"
        using Cons by simp
      then have nin: "n \<in> set sights'" by simp
      show ?thesis
      proof (cases "totalDist + dn + er > maxDistance * 0.9")
        case True
        then have "?r = route"
          using cont Cons
          by (subst nearestNeighbourLoop.simps) (simp add: Let_def n_def dn_def er_def)
        then show ?thesis by auto
      next
        case ok: False
        let ?r' = "nearestNeighbourLoop cd userLocation sights' maxDistance
                     (List.insert (sight_id n) visited) (route @ [n])
                     (latitude n, longitude n) (totalDist + dn)"
        have r: "?r = ?r'"
          using cont Cons ok
          by (subst nearestNeighbourLoop.simps) (simp add: Let_def n_def dn_def er_def)
        have "set ?r' \<subseteq> set (route @ [n]) \<union> set sights'"
          using "1.IH" [OF cont Cons n_def [symmetric, THEN sym] dn_def er_def] ok
          unfolding n_def dn_def er_def
          by simp
        with nin r show ?thesis by auto
      qed
    qed
  qed
qed

lemma optimizeTourSimple_subset:
  "set (optimizeTourSimple cd userLocation sights' maxDistance ws) \<subseteq> set sights'"
proof (cases sights')
  case Nil
  then show ?thesis by (simp add: optimizeTourSimple_def)
next
  case (Cons s rest)
  define c where "c = foldl (closerSight cd userLocation) s rest"
  have cin: "c \<in> set sights'"
    using foldl_closerSight_mem [of cd userLocation s rest] by (simp add: c_def Cons)
  show ?thesis
  proof (cases "length sights' \<le> 1")
    case True
    then show ?thesis by (simp add: optimizeTourSimple_def)
  next
    case False
    then have "optimizeTourSimple cd userLocation sights' maxDistance ws =
          nearestNeighbourLoop cd userLocation sights' maxDistance [sight_id c] [c]
            (latitude c, longitude c) 0"
      by (simp add: optimizeTourSimple_def Cons c_def Let_def)
    with nearestNeighbourLoop_subset [of cd userLocation sights' maxDistance "[sight_id c]" "[c]"
           "(latitude c, longitude c)" 0] cin
    show ?thesis by auto
  qed
qed

lemma addMatched_subset:
  "set (addMatched sights' acc nm) \<subseteq> set acc \<union> set sights'"
  by (auto simp: addMatched_def find_Some_iff split: option.splits)

lemma foldl_addMatched_subset:
  "set (foldl (addMatched sights') acc names) \<subseteq> set acc \<union> set sights'"
proof (induction names arbitrary: acc)
  case Nil
  show ?case by simp
next
  case (Cons nm names)
  from Cons.IH [of "addMatched sights' acc nm"] addMatched_subset [of sights' acc nm]
  show ?case by auto
qed

lemma optimizeTourWithAI_subset:
  "set (optimizeTourWithAI cd response userLocation sights' maxDistance ws) \<subseteq> set sights'"
proof (cases response)
  case (Completion completion)
  define matched where
    "matched = foldl (addMatched sights') [] (map trim (split_on CHR '','' completion))"
  define remaining where
    "remaining = sort_key distanceOrZero
        (filter (\<lambda>sight. find (\<lambda>r. sight_id r = sight_id sight) matched = None) sights')"
  have m: "set matched \<subseteq> set sights'"
    using foldl_addMatched_subset [of sights' "[]"] by (simp add: matched_def)
  have "set (take (min 5 (length remaining)) remaining) \<subseteq> set remaining"
    by (rule set_take_subset)
  also have "\<dots> \<subseteq> set sights'" by (auto simp: remaining_def)
  finally have t: "set (take (min 5 (length remaining)) remaining) \<subseteq> set sights'" .
  show ?thesis
    using m t optimizeTourSimple_subset [of cd userLocation sights' maxDistance None]
    unfolding optimizeTourWithAI_def Completion matched_def remaining_def
    by (auto simp: Let_def)
qed (simp_all add: optimizeTourWithAI_def optimizeTourSimple_subset)

lemma optimizeTourWithAI_nonempty:
  "sights' \<noteq> [] \<Longrightarrow> optimizeTourWithAI cd response userLocation sights' maxDistance ws \<noteq> []"
  by (cases response)
     (auto simp: optimizeTourWithAI_def Let_def optimizeTourSimple_nonempty)

lemma optimizedRouteOf_subset:
  "set (optimizedRouteOf cd env userLocation nearSights maxDistance ws) \<subseteq> set nearSights"
  by (simp add: optimizedRouteOf_def optimizeTourWithAI_subset optimizeTourSimple_subset)

lemma optimizedRouteOf_nonempty:
  "nearSights \<noteq> [] \<Longrightarrow> optimizedRouteOf cd env userLocation nearSights maxDistance ws \<noteq> []"
  by (simp add: optimizedRouteOf_def optimizeTourWithAI_nonempty optimizeTourSimple_nonempty)

lemma selectNearSights_cases:
  "selectNearSights maxDistance av ws =
     (if filter (withinDistance maxDistance) (filterByTier ws av) \<noteq> []
      then Inr (filter (withinDistance maxDistance) (filterByTier ws av))
      else if filter (withinDistance (maxDistance * 1.5)) (filterByTier ws av) = []
      then Inl (NoSightsFound (maxDistance * 1.5))
      else Inr (take 8 (sort_key distanceOrZero
                  (filter (withinDistance (maxDistance * 1.5)) (filterByTier ws av)))))"
  by (simp add: selectNearSights_def Let_def min_def)

lemma selectNearSights_Inr:
  assumes "selectNearSights maxDistance av ws = Inr nearSights"
  shows "nearSights \<noteq> [] \<and> set nearSights \<subseteq> {s \<in> set av. distance s \<noteq> None}"
proof -
  have tier: "set (filterByTier ws av) \<subseteq> set av"
    by (auto simp: filterByTier_def split: option.splits)
  have wd: "set (filter (withinDistance r) xs) \<subseteq> {s \<in> set xs. distance s \<noteq> None}" for r xs
    by (auto simp: withinDistance_def split: option.splits)
  have tk: "set (take 8 (sort_key distanceOrZero xs)) \<subseteq> set xs" for xs :: "Sight list"
    using set_take_subset [of 8 "sort_key distanceOrZero xs"] by simp
  have ne: "take 8 (sort_key distanceOrZero xs) \<noteq> []" if "xs \<noteq> []" for xs :: "Sight list"
  proof -
    from that have "length (sort_key distanceOrZero xs) \<noteq> 0" by simp
    then show ?thesis by (auto simp del: length_sort)
  qed
  show ?thesis
  proof (cases "filter (withinDistance maxDistance) (filterByTier ws av) \<noteq> []")
    case True
    with assms have "nearSights = filter (withinDistance maxDistance) (filterByTier ws av)"
      by (simp add: selectNearSights_cases)
    with True wd [of maxDistance "filterByTier ws av"] tier show ?thesis by auto
  next
    case False
    with assms have e: "filter (withinDistance (maxDistance * 1.5)) (filterByTier ws av) \<noteq> []"
      and n: "nearSights = take 8 (sort_key distanceOrZero
                  (filter (withinDistance (maxDistance * 1.5)) (filterByTier ws av)))"
      by (auto simp: selectNearSights_cases split: if_splits)
    from ne [OF e] n tk [of "filter (withinDistance (maxDistance * 1.5)) (filterByTier ws av)"]
      wd [of "maxDistance * 1.5" "filterByTier ws av"] tier
    show ?thesis by auto
  qed
qed

lemma truncate_tourStopsOf: "map Sight.truncate (tourStopsOf cd ws route) = route"
proof (rule nth_equalityI)
  show "length (map Sight.truncate (tourStopsOf cd ws route)) = length route" by simp
next
  fix i assume "i < length (map Sight.truncate (tourStopsOf cd ws route))"
  then have "i < length route" by simp
  then show "map Sight.truncate (tourStopsOf cd ws route) ! i = route ! i"
    by (simp add: nth_tourStopsOf toTourStop_truncate)
qed

lemma generateTour_Inr:
  assumes "selectNearSights m av ws = Inr nearSights"
  shows "generateTour cd env u m av ws st =
           (None, st\<lparr>currentTour := Some (assembleTour cd env ws (optimizedRouteOf cd env u nearSights m ws)),
                     isGenerating := False\<rparr>)"
proof -
  from selectNearSights_Inr [OF assms] have "nearSights \<noteq> []" by simp
  from optimizedRouteOf_nonempty [OF this, of cd env u m ws] assms
  show ?thesis
    by (simp add: generateTour_cases generateTourTry_def Let_def)
qed

lemma stop_of_route:
  assumes "s \<in> set (tourStopsOf cd ws route)"
  shows "Sight.truncate s \<in> set route \<and> distance s = distance (Sight.truncate s)"
proof -
  from assms obtain i where i: "i < length route" and s: "s = tourStopsOf cd ws route ! i"
    by (auto simp: in_set_conv_nth)
  then have "s = toTourStop cd ws route i (route ! i)" by (simp add: nth_tourStopsOf)
  then show ?thesis
    using i by (simp add: toTourStop_truncate)
qed

section \<open>Sample run\<close>

lemma sample_select:
  "selectNearSights 1 [sC, sB, sA] (Some sampleSettings) = Inr [sB, sA]"
  by (simp add: selectNearSights_def filterByTier_def withinDistance_def sampleSettings_def
        sA_def sB_def sC_def mkSight_def)

lemma sample_route:
  "optimizeTourSimple grid_km (0, 0) [sB, sA] 1 ws = [sA, sB]"
  by (simp add: optimizeTourSimple_def closerSight_def grid_km_def sA_def sB_def mkSight_def)

lemma sample_generate:
  "generateTour grid_km sampleEnv (0, 0) 1 [sC, sB, sA] (Some sampleSettings) sampleState =
     (None, sampleState\<lparr>currentTour := Some sampleTour, isGenerating := False\<rparr>)"
  by (simp add: generateTour_cases generateTourTry_def sample_select optimizedRouteOf_def
        sample_route sampleEnv_def sampleTour_def)

lemma sample_stops:
  "map order (sights sampleTour) = [1, 2] \<and>
   map distanceToNext (sights sampleTour) = [Some 0.111, Some 0] \<and>
   map walkingTimeToNext (sights sampleTour) = [Some 2, Some 0] \<and>
   map sight_name (sights sampleTour) = [''A'', ''B'']"
  by (simp add: sampleTour_def assembleTour_fields tourStopsOf_def toTourStop_def Let_def
        Sight.defs TourStop.defs sA_def sB_def mkSight_def grid_km_def sampleSettings_def
        getTransportTimeMultiplier_def)

lemma expanded_select:
  "selectNearSights 1 [sE, sD] None = Inr [sD, sE]"
  by (simp add: selectNearSights_cases filterByTier_def withinDistance_def distanceOrZero_def
        sD_def sE_def mkSight_def)

lemma expanded_route:
  "optimizeTourSimple grid_km (0, 0) [sD, sE] 1 ws = [sD]"
  by (simp add: optimizeTourSimple_def closerSight_def grid_km_def sD_def sE_def mkSight_def)

lemma four_select:
  "selectNearSights 3 [sC, sB, sA, sF] None = Inr [sC, sB, sA, sF]"
  by (simp add: selectNearSights_cases filterByTier_def withinDistance_def
        sA_def sB_def sC_def sF_def mkSight_def)

lemma sample_stop_sights:
  "map Sight.truncate (sights sampleTour) = [sA, sB]"
  by (simp add: sampleTour_def assembleTour_fields truncate_tourStopsOf)

lemma sample_select_G:
  "selectNearSights 1 [sG, sC, sB, sA] (Some sampleSettings) = Inr [sB, sA]"
  by (simp add: selectNearSights_def filterByTier_def withinDistance_def sampleSettings_def
        sA_def sB_def sC_def sG_def mkSight_def)

lemma sample_generate_G:
  "generateTour grid_km sampleEnv (0, 0) 1 [sG, sC, sB, sA] (Some sampleSettings) sampleState =
     (None, sampleState\<lparr>currentTour := Some sampleTour, isGenerating := False\<rparr>)"
  by (simp add: generateTour_Inr [OF sample_select_G] optimizedRouteOf_def
        sample_route sampleEnv_def sampleTour_def)

lemma sample_totals:
  "totalDistance sampleTour = 0.111 \<and> estimatedDuration sampleTour = 32"
  by (simp add: sampleTour_def assembleTour_def tourStopsOf_def toTourStop_def Let_def
        Sight.defs TourStop.defs sA_def sB_def mkSight_def grid_km_def sampleSettings_def
        getTransportTimeMultiplier_def getDetailLevelTime_def
        distanceToNextOrZero_def walkingTimeToNextOrZero_def)

section \<open>Tour assembler and store: results\<close>

text \<open>
  C5: when \<^verbatim>\<open>generateTour\<close> succeeds with wizard settings supplied, the tour it
  publishes has, for every stop but the last, the distance to the next stop and a travel
  time equal to that distance times the minutes per kilometre of the transport mode (walk
  12, taxi 3, public 6, mix 8), rounded up. Every stop carries both fields; the tour's total
  distance is the sum of the stops' \<^verbatim>\<open>distanceToNext\<close> fields, and its estimated duration is
  the sum of the stops' \<^verbatim>\<open>walkingTimeToNext\<close> fields plus the number of stops times the
  dwell minutes of the detail level (brief 5, medium 15, expert 25).
\<close>

theorem generateTour_times_and_totals:
  assumes "generateTour cd env userLocation maxDistance availableSights (Some w) st = (None, st')"
  shows "\<exists>t. currentTour st' = Some t \<and>
           (\<forall>i. i + 1 < length (sights t) \<longrightarrow>
              distanceToNext (sights t ! i) =
                Some (cd (latitude (sights t ! i)) (longitude (sights t ! i))
                         (latitude (sights t ! (i + 1))) (longitude (sights t ! (i + 1)))) \<and>
              walkingTimeToNext (sights t ! i) =
                Some \<lceil>cd (latitude (sights t ! i)) (longitude (sights t ! i))
                          (latitude (sights t ! (i + 1))) (longitude (sights t ! (i + 1)))
                       * getTransportTimeMultiplier (transportMode w)\<rceil>) \<and>
           (\<forall>s \<in> set (sights t). distanceToNext s \<noteq> None \<and> walkingTimeToNext s \<noteq> None) \<and>
           totalDistance t = sum_list (map (\<lambda>s. the (distanceToNext s)) (sights t)) \<and>
           estimatedDuration t =
             sum_list (map (\<lambda>s. the (walkingTimeToNext s)) (sights t)) +
             int (length (sights t)) * getDetailLevelTime (detailLevelPerSight w) \<and>
           getTransportTimeMultiplier Walk = 12 \<and> getTransportTimeMultiplier Taxi = 3 \<and>
           getTransportTimeMultiplier Public = 6 \<and> getTransportTimeMultiplier Mix = 8 \<and>
           getDetailLevelTime Brief = 5 \<and> getDetailLevelTime Medium = 15 \<and>
           getDetailLevelTime Expert = 25"
proof -
  from generateTour_success [OF assms] obtain nearSights where
    st': "st' = st\<lparr>currentTour :=
                 Some (assembleTour cd env (Some w)
                        (optimizedRouteOf cd env userLocation nearSights maxDistance (Some w))),
               isGenerating := False\<rparr>"
    by blast
  define route where "route = optimizedRouteOf cd env userLocation nearSights maxDistance (Some w)"
  define t where "t = assembleTour cd env (Some w) route"
  have cur: "currentTour st' = Some t" by (simp add: st' t_def route_def)
  have stops: "sights t = tourStopsOf cd (Some w) route"
    by (simp add: t_def assembleTour_fields)
  have legs: "distanceToNext (sights t ! i) =
                Some (cd (latitude (sights t ! i)) (longitude (sights t ! i))
                         (latitude (sights t ! (i + 1))) (longitude (sights t ! (i + 1)))) \<and>
              walkingTimeToNext (sights t ! i) =
                Some \<lceil>cd (latitude (sights t ! i)) (longitude (sights t ! i))
                          (latitude (sights t ! (i + 1))) (longitude (sights t ! (i + 1)))
                       * getTransportTimeMultiplier (transportMode w)\<rceil>"
    if "i + 1 < length (sights t)" for i
  proof -
    from that have i: "i + 1 < length route" by (simp add: stops)
    then have "i < length route" by simp
    with i toTourStop_next [OF i, of cd "Some w" "route ! i"] show ?thesis
      by (simp add: stops nth_tourStopsOf)
  qed
  have pres: "\<forall>s \<in> set (sights t). distanceToNext s \<noteq> None \<and> walkingTimeToNext s \<noteq> None"
    using tourStop_fields_present [of _ cd "Some w" route] by (simp add: stops)
  have tot: "totalDistance t = sum_list (map (\<lambda>s. the (distanceToNext s)) (sights t))"
    by (simp add: t_def assembleTour_fields tourStops_sums)
  have dur: "estimatedDuration t =
             sum_list (map (\<lambda>s. the (walkingTimeToNext s)) (sights t)) +
             int (length (sights t)) * getDetailLevelTime (detailLevelPerSight w)"
    by (simp add: t_def assembleTour_fields tourStops_sums)
  have tab: "getTransportTimeMultiplier Walk = 12 \<and> getTransportTimeMultiplier Taxi = 3 \<and>
           getTransportTimeMultiplier Public = 6 \<and> getTransportTimeMultiplier Mix = 8 \<and>
           getDetailLevelTime Brief = 5 \<and> getDetailLevelTime Medium = 15 \<and>
           getDetailLevelTime Expert = 25"
    by (simp add: getTransportTimeMultiplier_def getDetailLevelTime_def)
  from cur legs pres tot dur tab show ?thesis by blast
qed

theorem generateTour_times_and_totals_witness:
  "generateTour grid_km sampleEnv (0, 0) 1 [sC, sB, sA] (Some sampleSettings) sampleState =
     (None, sampleState\<lparr>currentTour := Some sampleTour, isGenerating := False\<rparr>) \<and>
   map sight_name (sights sampleTour) = [''A'', ''B''] \<and>
   grid_km (latitude sA) (longitude sA) (latitude sB) (longitude sB) = 0.111 \<and>
   map distanceToNext (sights sampleTour) = [Some 0.111, Some 0] \<and>
   \<lceil>(0.111 :: real) * getTransportTimeMultiplier Walk\<rceil> = 2 \<and>
   map walkingTimeToNext (sights sampleTour) = [Some 2, Some 0] \<and>
   totalDistance sampleTour = 0.111 + 0 \<and>
   estimatedDuration sampleTour = (2 + 0) + 2 * 15 \<and>
   totalDistance sampleTour = sum_list (map (\<lambda>s. the (distanceToNext s)) (sights sampleTour)) \<and>
   estimatedDuration sampleTour =
     sum_list (map (\<lambda>s. the (walkingTimeToNext s)) (sights sampleTour)) +
     int (length (sights sampleTour)) * getDetailLevelTime Medium"
proof -
  have len: "length (sights sampleTour) = 2"
    by (simp add: sampleTour_def assembleTour_fields)
  have d: "grid_km (latitude sA) (longitude sA) (latitude sB) (longitude sB) = 0.111"
    by (simp add: grid_km_def sA_def sB_def mkSight_def)
  have c: "\<lceil>(0.111 :: real) * getTransportTimeMultiplier Walk\<rceil> = 2"
    by (simp add: getTransportTimeMultiplier_def ceiling_eq_iff)
  from generateTour_times_and_totals [OF sample_generate]
  show ?thesis using sample_generate len sample_stops sample_totals d c
    by (auto simp: sampleSettings_def)
qed



text \<open>
  C7 (as stated, refuted): in the tour published for the sample run the last stop's
  \<^verbatim>\<open>distanceToNext\<close> and \<^verbatim>\<open>walkingTimeToNext\<close> are not absent: both are the number 0,
  the value the two variables are initialised with (lines 105--106) and that the stop
  object always receives (lines 124--125).
\<close>

theorem generateTour_last_stop_absent_counterexample:
  "generateTour grid_km sampleEnv (0, 0) 1 [sC, sB, sA] (Some sampleSettings) sampleState =
     (None, sampleState\<lparr>currentTour := Some sampleTour, isGenerating := False\<rparr>) \<and>
   sights sampleTour \<noteq> [] \<and>
   distanceToNext (last (sights sampleTour)) = Some 0 \<and>
   distanceToNext (last (sights sampleTour)) \<noteq> None \<and>
   walkingTimeToNext (last (sights sampleTour)) = Some 0 \<and>
   walkingTimeToNext (last (sights sampleTour)) \<noteq> None"
  using sample_generate
  by (simp add: sampleTour_def assembleTour_fields tourStopsOf_def toTourStop_def Let_def
        Sight.defs TourStop.defs sA_def sB_def mkSight_def)

text \<open>
  C7 (amended): when \<^verbatim>\<open>generateTour\<close> succeeds, the published tour has at least one
  stop and the last stop's \<^verbatim>\<open>distanceToNext\<close> and \<^verbatim>\<open>walkingTimeToNext\<close> are present and
  equal to 0.
\<close>

theorem generateTour_last_stop_zero:
  assumes "generateTour cd env userLocation maxDistance availableSights ws st = (None, st')"
  shows "\<exists>t. currentTour st' = Some t \<and> sights t \<noteq> [] \<and>
           distanceToNext (last (sights t)) = Some 0 \<and>
           walkingTimeToNext (last (sights t)) = Some 0"
proof -
  from generateTour_success [OF assms] obtain nearSights where
    ne: "optimizedRouteOf cd env userLocation nearSights maxDistance ws \<noteq> []" and
    st': "st' = st\<lparr>currentTour :=
                 Some (assembleTour cd env ws
                        (optimizedRouteOf cd env userLocation nearSights maxDistance ws)),
               isGenerating := False\<rparr>"
    by blast
  define route where "route = optimizedRouteOf cd env userLocation nearSights maxDistance ws"
  define t where "t = assembleTour cd env ws route"
  have cur: "currentTour st' = Some t" by (simp add: st' t_def route_def)
  have stops: "sights t = tourStopsOf cd ws route"
    by (simp add: t_def assembleTour_fields)
  have rne: "route \<noteq> []" using ne by (simp add: route_def)
  have "length (sights t) = length route" by (simp add: stops)
  with rne have sne: "sights t \<noteq> []" by auto
  have "last (sights t) = sights t ! (length route - 1)"
    using sne by (simp add: last_conv_nth stops)
  also have "\<dots> = toTourStop cd ws route (length route - 1) (route ! (length route - 1))"
    using rne by (simp add: stops nth_tourStopsOf)
  finally have l: "last (sights t) = toTourStop cd ws route (length route - 1) (route ! (length route - 1))" .
  have "\<not> (length route - 1) + 1 < length route" by simp
  from toTourStop_last [OF this, of cd ws "route ! (length route - 1)"] l cur sne
  show ?thesis by simp
qed

theorem generateTour_last_stop_zero_witness:
  "generateTour grid_km sampleEnv (0, 0) 1 [sC, sB, sA] (Some sampleSettings) sampleState =
     (None, sampleState\<lparr>currentTour := Some sampleTour, isGenerating := False\<rparr>) \<and>
   sights sampleTour \<noteq> [] \<and>
   distanceToNext (last (sights sampleTour)) = Some 0 \<and>
   walkingTimeToNext (last (sights sampleTour)) = Some 0"
  using generateTour_last_stop_zero [OF sample_generate] sample_generate
  by auto

text \<open>
  C8: \<^verbatim>\<open>generateTour\<close> first publishes a state with the busy flag set, and the state
  it leaves behind, whether it succeeds or fails with either error, has the flag cleared.
\<close>

theorem generateTour_busy_flag:
  "isGenerating (hd (snd (generateTourTrace cd env userLocation maxDistance availableSights ws st))) \<and>
   snd (generateTour cd env userLocation maxDistance availableSights ws st) =
     last (snd (generateTourTrace cd env userLocation maxDistance availableSights ws st)) \<and>
   \<not> isGenerating (snd (generateTour cd env userLocation maxDistance availableSights ws st))"
  by (simp add: generateTour_def generateTourTrace_def Let_def split: sum.splits)

text \<open>
  C9: with a current tour and a non-empty name X, \<^verbatim>\<open>saveTour(X)\<close> changes nothing but the
  saved tours: when a saved tour has the current tour's identifier, the first such entry is
  replaced by the current tour renamed to X and every other entry is kept; otherwise the
  renamed tour is appended. \<^verbatim>\<open>loadTour\<close> of that identifier then only makes the renamed tour
  the current one: its name is X and its stop sequence is the one current at save time.
\<close>

theorem saveTour_loadTour_roundtrip:
  assumes "currentTour st = Some cur" and "X \<noteq> []"
  shows "saveTour X st = st\<lparr>savedTours := savedTours (saveTour X st)\<rparr> \<and>
         ((\<exists>t \<in> set (savedTours st). tour_id t = tour_id cur) \<longrightarrow>
            (\<exists>i < length (savedTours st).
               tour_id (savedTours st ! i) = tour_id cur \<and>
               (\<forall>j < i. tour_id (savedTours st ! j) \<noteq> tour_id cur) \<and>
               savedTours (saveTour X st) = (savedTours st)[i := cur\<lparr>tour_name := X\<rparr>])) \<and>
         (\<not> (\<exists>t \<in> set (savedTours st). tour_id t = tour_id cur) \<longrightarrow>
            savedTours (saveTour X st) = savedTours st @ [cur\<lparr>tour_name := X\<rparr>]) \<and>
         find (\<lambda>t. tour_id t = tour_id cur) (savedTours (saveTour X st)) =
           Some (cur\<lparr>tour_name := X\<rparr>) \<and>
         loadTour (tour_id cur) (saveTour X st) =
           (saveTour X st)\<lparr>currentTour := Some (cur\<lparr>tour_name := X\<rparr>)\<rparr> \<and>
         (\<exists>t. currentTour (loadTour (tour_id cur) (saveTour X st)) = Some t \<and>
              tour_name t = X \<and> sights t = sights cur \<and> t = cur\<lparr>tour_name := X\<rparr>)"
proof -
  let ?P = "\<lambda>tour. tour_id tour = tour_id cur"
  let ?t = "cur\<lparr>tour_name := X\<rparr>"
  have P: "?P ?t" by simp
  have same: "saveTour X st = st\<lparr>savedTours := savedTours (saveTour X st)\<rparr>"
    using assms by (simp add: saveTour_def Let_def)
  have upd: "\<exists>i < length (savedTours st).
               tour_id (savedTours st ! i) = tour_id cur \<and>
               (\<forall>j < i. tour_id (savedTours st ! j) \<noteq> tour_id cur) \<and>
               savedTours (saveTour X st) = (savedTours st)[i := ?t]"
    if "\<exists>t \<in> set (savedTours st). tour_id t = tour_id cur"
  proof -
    from that have ge: "findIndex ?P (savedTours st) \<ge> 0" by (simp add: findIndex_absent)
    have "savedTours (saveTour X st) = (savedTours st)[nat (findIndex ?P (savedTours st)) := ?t]"
      using assms ge by (simp add: saveTour_def Let_def)
    with findIndex_found [OF ge] show ?thesis by blast
  qed
  have app: "savedTours (saveTour X st) = savedTours st @ [?t]"
    if "\<not> (\<exists>t \<in> set (savedTours st). tour_id t = tour_id cur)"
  proof -
    from that have "\<not> findIndex ?P (savedTours st) \<ge> 0" by (simp add: findIndex_absent)
    then show ?thesis using assms by (simp add: saveTour_def Let_def)
  qed
  have fnd: "find ?P (savedTours (saveTour X st)) = Some ?t"
  proof (cases "findIndex ?P (savedTours st) \<ge> 0")
    case True
    then show ?thesis
      using assms find_update_findIndex [of ?P "savedTours st" ?t, OF True P]
      by (simp add: saveTour_def Let_def)
  next
    case False
    then show ?thesis
      using assms find_append_findIndex [of ?P "savedTours st" ?t, OF False P]
      by (simp add: saveTour_def Let_def)
  qed
  have ld: "loadTour (tour_id cur) (saveTour X st) = (saveTour X st)\<lparr>currentTour := Some ?t\<rparr>"
    using fnd by (simp add: loadTour_def)
  have ex: "\<exists>t. currentTour (loadTour (tour_id cur) (saveTour X st)) = Some t \<and>
              tour_name t = X \<and> sights t = sights cur \<and> t = ?t"
    unfolding ld by simp
  from same upd app fnd ld ex show ?thesis by blast
qed

theorem saveTour_loadTour_roundtrip_witness:
  "currentTour (sampleState\<lparr>currentTour := Some sampleTour\<rparr>) = Some sampleTour \<and>
   currentTour sampleSavedState = Some sampleTour \<and>
   ''Evening walk'' \<noteq> [] \<and>
   saveTour ''Evening walk'' (sampleState\<lparr>currentTour := Some sampleTour\<rparr>) =
     sampleState\<lparr>currentTour := Some sampleTour,
                  savedTours := [sampleTour\<lparr>tour_name := ''Evening walk''\<rparr>]\<rparr> \<and>
   loadTour (tour_id sampleTour)
       (saveTour ''Evening walk'' (sampleState\<lparr>currentTour := Some sampleTour\<rparr>)) =
     sampleState\<lparr>currentTour := Some (sampleTour\<lparr>tour_name := ''Evening walk''\<rparr>),
                  savedTours := [sampleTour\<lparr>tour_name := ''Evening walk''\<rparr>]\<rparr> \<and>
   tour_id sampleOtherTour \<noteq> tour_id sampleTour \<and>
   saveTour ''Evening walk'' sampleSavedState =
     sampleSavedState\<lparr>savedTours :=
        [sampleOtherTour, sampleTour\<lparr>tour_name := ''Evening walk''\<rparr>]\<rparr> \<and>
   loadTour (tour_id sampleTour) (saveTour ''Evening walk'' sampleSavedState) =
     sampleSavedState\<lparr>currentTour := Some (sampleTour\<lparr>tour_name := ''Evening walk''\<rparr>),
                       savedTours :=
        [sampleOtherTour, sampleTour\<lparr>tour_name := ''Evening walk''\<rparr>]\<rparr> \<and>
   tour_name (sampleTour\<lparr>tour_name := ''Evening walk''\<rparr>) = ''Evening walk'' \<and>
   sights (sampleTour\<lparr>tour_name := ''Evening walk''\<rparr>) = sights sampleTour"
proof -
  have a: "currentTour (sampleState\<lparr>currentTour := Some sampleTour\<rparr>) = Some sampleTour" by simp
  have b: "currentTour sampleSavedState = Some sampleTour" by (simp add: sampleSavedState_def)
  have c: "''Evening walk'' \<noteq> []" by simp
  have d: "tour_id sampleOtherTour \<noteq> tour_id sampleTour" by (simp add: sampleOtherTour_def)
  have s1: "savedTours (sampleState\<lparr>currentTour := Some sampleTour\<rparr>) = []"
    by (simp add: sampleState_def)
  have s2: "savedTours sampleSavedState = [sampleOtherTour, sampleTour\<lparr>tour_name := ''Draft''\<rparr>]"
    by (simp add: sampleSavedState_def)
  from saveTour_loadTour_roundtrip [OF a c] saveTour_loadTour_roundtrip [OF b c]
  show ?thesis
    using a b d s1 s2
    by (simp add: saveTour_def loadTour_def Let_def sampleState_def sampleSavedState_def)
qed

section \<open>Candidate selection and choice of optimizer: results\<close>

text \<open>
  C3 (as stated, refuted): with a budget of 1 km and the two candidates D (1.22 km) and
  E (1.33 km), nothing passes the base filter and both pass the retry at 1.5 km, so the
  closest up to 8 of them are D, E. They are handed to the heuristic optimizer, which keeps
  D only (E is 2.55 km from D, over the budget): the published tour has the single stop D,
  not the stops D, E.
\<close>

theorem generateTour_expanded_counterexample:
  "filter (withinDistance 1) (filterByTier None [sE, sD]) = [] \<and>
   take 8 (sort_key distanceOrZero (filter (withinDistance (1 * 1.5)) (filterByTier None [sE, sD])))
     = [sD, sE] \<and>
   generateTour grid_km sampleEnv (0, 0) 1 [sE, sD] None sampleState =
     (None, sampleState\<lparr>currentTour := Some (assembleTour grid_km sampleEnv None [sD]),
                        isGenerating := False\<rparr>) \<and>
   map Sight.truncate (sights (assembleTour grid_km sampleEnv None [sD])) = [sD] \<and>
   [sD] \<noteq> [sD, sE]"
proof -
  have a: "filter (withinDistance 1) (filterByTier None [sE, sD]) = []"
    by (simp add: filterByTier_def withinDistance_def sD_def sE_def mkSight_def)
  have b: "take 8 (sort_key distanceOrZero
             (filter (withinDistance (1 * 1.5)) (filterByTier None [sE, sD]))) = [sD, sE]"
    by (simp add: filterByTier_def withinDistance_def distanceOrZero_def sD_def sE_def mkSight_def)
  have c: "generateTour grid_km sampleEnv (0, 0) 1 [sE, sD] None sampleState =
     (None, sampleState\<lparr>currentTour := Some (assembleTour grid_km sampleEnv None [sD]),
                        isGenerating := False\<rparr>)"
    by (simp add: generateTour_Inr [OF expanded_select] optimizedRouteOf_def sampleEnv_def
          expanded_route)
  have d: "map Sight.truncate (sights (assembleTour grid_km sampleEnv None [sD])) = [sD]"
    by (simp add: assembleTour_fields truncate_tourStopsOf)
  from a b c d show ?thesis by simp
qed

text \<open>
  C3 (amended): when nothing passes the tier and base-budget filters and the retry at 1.5
  times the budget finds at least one candidate, the candidates handed to the optimizer are
  exactly the closest up to 8 of the expanded-radius candidates in ascending order of
  distance from the user, \<^verbatim>\<open>generateTour\<close> succeeds, and the stop sequence of the published
  tour is what the optimizer chosen by lines 91--96 (delegated with a credential and more
  than 3 candidates, heuristic otherwise) returns on them.
\<close>

theorem generateTour_expanded_retry:
  assumes "filter (withinDistance maxDistance) (filterByTier ws availableSights) = []"
    and "filter (withinDistance (maxDistance * 1.5)) (filterByTier ws availableSights) \<noteq> []"
  shows "\<exists>t. selectNearSights maxDistance availableSights ws =
               Inr (take 8 (sort_key distanceOrZero
                     (filter (withinDistance (maxDistance * 1.5)) (filterByTier ws availableSights)))) \<and>
             generateTour cd env userLocation maxDistance availableSights ws st =
               (None, st\<lparr>currentTour := Some t, isGenerating := False\<rparr>) \<and>
             map Sight.truncate (sights t) =
               optimizedRouteOf cd env userLocation
                 (take 8 (sort_key distanceOrZero
                     (filter (withinDistance (maxDistance * 1.5)) (filterByTier ws availableSights))))
                 maxDistance ws"
proof -
  let ?c = "take 8 (sort_key distanceOrZero
                     (filter (withinDistance (maxDistance * 1.5)) (filterByTier ws availableSights)))"
  have sel: "selectNearSights maxDistance availableSights ws = Inr ?c"
    using assms by (simp add: selectNearSights_cases)
  define t where "t = assembleTour cd env ws (optimizedRouteOf cd env userLocation ?c maxDistance ws)"
  have gen: "generateTour cd env userLocation maxDistance availableSights ws st =
               (None, st\<lparr>currentTour := Some t, isGenerating := False\<rparr>)"
    using generateTour_Inr [OF sel, of cd env userLocation st] by (simp add: t_def)
  have stops: "map Sight.truncate (sights t) = optimizedRouteOf cd env userLocation ?c maxDistance ws"
    by (simp add: t_def assembleTour_fields truncate_tourStopsOf)
  from sel gen stops show ?thesis by blast
qed

theorem generateTour_expanded_retry_witness:
  "filter (withinDistance 1) (filterByTier None [sE, sD]) = [] \<and>
   filter (withinDistance (1 * 1.5)) (filterByTier None [sE, sD]) \<noteq> [] \<and>
   (\<exists>t. selectNearSights 1 [sE, sD] None = Inr [sD, sE] \<and>
        generateTour grid_km sampleEnv (0, 0) 1 [sE, sD] None sampleState =
          (None, sampleState\<lparr>currentTour := Some t, isGenerating := False\<rparr>) \<and>
        map Sight.truncate (sights t) = optimizedRouteOf grid_km sampleEnv (0, 0) [sD, sE] 1 None)"
proof -
  have a: "filter (withinDistance 1) (filterByTier None [sE, sD]) = []"
    by (simp add: filterByTier_def withinDistance_def sD_def sE_def mkSight_def)
  have b: "filter (withinDistance (1 * 1.5)) (filterByTier None [sE, sD]) \<noteq> []"
    by (simp add: filterByTier_def withinDistance_def sD_def sE_def mkSight_def)
  have c: "take 8 (sort_key distanceOrZero
             (filter (withinDistance (1 * 1.5)) (filterByTier None [sE, sD]))) = [sD, sE]"
    by (simp add: filterByTier_def withinDistance_def distanceOrZero_def sD_def sE_def mkSight_def)
  from generateTour_expanded_retry [OF a b, of grid_km sampleEnv "(0, 0)" sampleState]
  show ?thesis using a b unfolding c by simp
qed

text \<open>
  C4: when the request of the delegated optimizer fails (the fetch rejects, the response is
  not a success, or the body cannot be used), a credential is configured and more than 3
  candidates were selected, \<^verbatim>\<open>optimizeTourWithAI\<close> returns what \<^verbatim>\<open>optimizeTourSimple\<close>
  returns on the same inputs, and \<^verbatim>\<open>generateTour\<close> raises no error and publishes the tour
  assembled from that heuristic route, which is non-empty: the same outcome as without a
  credential.
\<close>

theorem delegation_failure_degrades:
  assumes "llmResponse env \<in> {FetchRejected, ResponseNotOk, BodyMalformed}"
    and "openAiApiKey env \<noteq> []"
    and "selectNearSights maxDistance availableSights ws = Inr nearSights"
    and "length nearSights > 3"
  shows "optimizeTourWithAI cd (llmResponse env) userLocation nearSights maxDistance ws =
           optimizeTourSimple cd userLocation nearSights maxDistance ws \<and>
         (\<exists>t. generateTour cd env userLocation maxDistance availableSights ws st =
                 (None, st\<lparr>currentTour := Some t, isGenerating := False\<rparr>) \<and>
               t = assembleTour cd env ws (optimizeTourSimple cd userLocation nearSights maxDistance ws) \<and>
               sights t \<noteq> [] \<and>
               map Sight.truncate (sights t) =
                 optimizeTourSimple cd userLocation nearSights maxDistance ws) \<and>
         generateTour cd env userLocation maxDistance availableSights ws st =
           generateTour cd (env\<lparr>openAiApiKey := []\<rparr>) userLocation maxDistance availableSights ws st"
proof -
  have ai: "optimizeTourWithAI cd (llmResponse env) userLocation nearSights maxDistance ws =
           optimizeTourSimple cd userLocation nearSights maxDistance ws"
    using assms(1) by (auto simp: optimizeTourWithAI_def)
  have r1: "optimizedRouteOf cd env userLocation nearSights maxDistance ws =
              optimizeTourSimple cd userLocation nearSights maxDistance ws"
    using assms(2,4) ai by (simp add: optimizedRouteOf_def)
  have r2: "optimizedRouteOf cd (env\<lparr>openAiApiKey := []\<rparr>) userLocation nearSights maxDistance ws =
              optimizeTourSimple cd userLocation nearSights maxDistance ws"
    by (simp add: optimizedRouteOf_def)
  have ne: "optimizeTourSimple cd userLocation nearSights maxDistance ws \<noteq> []"
  proof -
    from assms(4) have "nearSights \<noteq> []" by auto
    then show ?thesis by (rule optimizeTourSimple_nonempty)
  qed
  have g1: "generateTour cd env userLocation maxDistance availableSights ws st =
              (None, st\<lparr>currentTour :=
                          Some (assembleTour cd env ws
                                 (optimizeTourSimple cd userLocation nearSights maxDistance ws)),
                        isGenerating := False\<rparr>)"
    using generateTour_Inr [OF assms(3), of cd env userLocation st] r1 by simp
  have g2: "generateTour cd (env\<lparr>openAiApiKey := []\<rparr>) userLocation maxDistance availableSights ws st =
              (None, st\<lparr>currentTour :=
                          Some (assembleTour cd env ws
                                 (optimizeTourSimple cd userLocation nearSights maxDistance ws)),
                        isGenerating := False\<rparr>)"
    using generateTour_Inr [OF assms(3), of cd "env\<lparr>openAiApiKey := []\<rparr>" userLocation st] r2
    by (simp add: assembleTour_def)
  have st: "sights (assembleTour cd env ws (optimizeTourSimple cd userLocation nearSights maxDistance ws)) \<noteq> []"
    using ne length_tourStopsOf [of cd ws "optimizeTourSimple cd userLocation nearSights maxDistance ws"]
    by (auto simp: assembleTour_fields simp del: length_tourStopsOf)
  show ?thesis
    using ai g1 g2 st by (simp add: assembleTour_fields truncate_tourStopsOf)
qed

theorem delegation_failure_degrades_witness:
  "llmResponse sampleEnvKey \<in> {FetchRejected, ResponseNotOk, BodyMalformed} \<and>
   openAiApiKey sampleEnvKey \<noteq> [] \<and>
   selectNearSights 3 [sC, sB, sA, sF] None = Inr [sC, sB, sA, sF] \<and>
   length [sC, sB, sA, sF] > 3 \<and>
   optimizeTourWithAI grid_km (llmResponse sampleEnvKey) (0, 0) [sC, sB, sA, sF] 3 None =
     optimizeTourSimple grid_km (0, 0) [sC, sB, sA, sF] 3 None \<and>
   generateTour grid_km sampleEnvKey (0, 0) 3 [sC, sB, sA, sF] None sampleState =
     (None, sampleState\<lparr>currentTour :=
               Some (assembleTour grid_km sampleEnvKey None
                      (optimizeTourSimple grid_km (0, 0) [sC, sB, sA, sF] 3 None)),
             isGenerating := False\<rparr>) \<and>
   generateTour grid_km sampleEnvKey (0, 0) 3 [sC, sB, sA, sF] None sampleState =
     generateTour grid_km (sampleEnvKey\<lparr>openAiApiKey := []\<rparr>) (0, 0) 3 [sC, sB, sA, sF] None sampleState"
proof -
  have a: "llmResponse sampleEnvKey \<in> {FetchRejected, ResponseNotOk, BodyMalformed}"
    by (simp add: sampleEnvKey_def sampleEnv_def)
  have b: "openAiApiKey sampleEnvKey \<noteq> []"
    by (simp add: sampleEnvKey_def sampleEnv_def)
  have d: "length [sC, sB, sA, sF] > 3" by simp
  from delegation_failure_degrades [OF a b four_select d, of grid_km "(0, 0)" sampleState]
  show ?thesis using a b four_select by auto
qed

text \<open>
  C10: a candidate without a distance value never reaches the optimizer and never appears
  among the stops of a published tour (every stop is one of the available sights and has a
  distance); and when every candidate left by the tier filter lacks a distance value,
  \<^verbatim>\<open>generateTour\<close> fails with the no-sights-found error and publishes no tour.
\<close>

theorem generateTour_distance_required:
  "(\<forall>nearSights. selectNearSights maxDistance availableSights ws = Inr nearSights \<longrightarrow>
       (\<forall>s \<in> set nearSights. distance s \<noteq> None)) \<and>
   (\<forall>st'. generateTour cd env userLocation maxDistance availableSights ws st = (None, st') \<longrightarrow>
       (\<exists>t. currentTour st' = Some t \<and>
            (\<forall>s \<in> set (sights t). distance s \<noteq> None \<and> Sight.truncate s \<in> set availableSights))) \<and>
   ((\<forall>s \<in> set (filterByTier ws availableSights). distance s = None) \<longrightarrow>
       generateTour cd env userLocation maxDistance availableSights ws st =
         (Some (NoSightsFound (maxDistance * 1.5)), st\<lparr>isGenerating := False\<rparr>))"
proof (intro conjI allI impI)
  fix nearSights
  assume "selectNearSights maxDistance availableSights ws = Inr nearSights"
  from selectNearSights_Inr [OF this] show "\<forall>s \<in> set nearSights. distance s \<noteq> None" by auto
next
  fix st'
  assume g: "generateTour cd env userLocation maxDistance availableSights ws st = (None, st')"
  from generateTour_success [OF g] obtain nearSights where
    sel: "selectNearSights maxDistance availableSights ws = Inr nearSights" and
    st': "st' = st\<lparr>currentTour :=
                 Some (assembleTour cd env ws
                        (optimizedRouteOf cd env userLocation nearSights maxDistance ws)),
               isGenerating := False\<rparr>"
    by blast
  define route where "route = optimizedRouteOf cd env userLocation nearSights maxDistance ws"
  define t where "t = assembleTour cd env ws route"
  have cur: "currentTour st' = Some t" by (simp add: st' t_def route_def)
  have sub: "set route \<subseteq> {s \<in> set availableSights. distance s \<noteq> None}"
    using optimizedRouteOf_subset [of cd env userLocation nearSights maxDistance ws]
      selectNearSights_Inr [OF sel]
    by (auto simp: route_def)
  have "distance s \<noteq> None \<and> Sight.truncate s \<in> set availableSights"
    if "s \<in> set (sights t)" for s
  proof -
    from that have "s \<in> set (tourStopsOf cd ws route)" by (simp add: t_def assembleTour_fields)
    from stop_of_route [OF this] sub show ?thesis by auto
  qed
  with cur show "\<exists>t. currentTour st' = Some t \<and>
            (\<forall>s \<in> set (sights t). distance s \<noteq> None \<and> Sight.truncate s \<in> set availableSights)"
    by blast
next
  assume none: "\<forall>s \<in> set (filterByTier ws availableSights). distance s = None"
  have "filter (withinDistance r) (filterByTier ws availableSights) = []" for r
    using none by (auto simp: filter_empty_conv withinDistance_def)
  then have "selectNearSights maxDistance availableSights ws = Inl (NoSightsFound (maxDistance * 1.5))"
    by (simp add: selectNearSights_cases)
  then show "generateTour cd env userLocation maxDistance availableSights ws st =
         (Some (NoSightsFound (maxDistance * 1.5)), st\<lparr>isGenerating := False\<rparr>)"
    by (simp add: generateTour_cases generateTourTry_def)
qed

theorem generateTour_distance_required_witness:
  "distance sG = None \<and>
   selectNearSights 1 [sG, sC, sB, sA] (Some sampleSettings) = Inr [sB, sA] \<and>
   map distance [sB, sA] = [Some 0.22, Some 0.11] \<and>
   generateTour grid_km sampleEnv (0, 0) 1 [sG, sC, sB, sA] (Some sampleSettings) sampleState =
     (None, sampleState\<lparr>currentTour := Some sampleTour, isGenerating := False\<rparr>) \<and>
   map Sight.truncate (sights sampleTour) = [sA, sB] \<and>
   map distance (sights sampleTour) = [Some 0.11, Some 0.22] \<and>
   map distance (filterByTier (Some sampleSettings) [sG]) = [None] \<and>
   generateTour grid_km sampleEnv (0, 0) 1 [sG] (Some sampleSettings) sampleState =
     (Some (NoSightsFound (1 * 1.5)), sampleState\<lparr>isGenerating := False\<rparr>)"
proof -
  have g: "distance sG = None" by (simp add: sG_def mkSight_def)
  have f: "filterByTier (Some sampleSettings) [sG] = [sG]"
    by (simp add: filterByTier_def sampleSettings_def sG_def mkSight_def)
  have h: "\<forall>s \<in> set (filterByTier (Some sampleSettings) [sG]). distance s = None"
    by (simp add: f g)
  have d: "map distance [sB, sA] = [Some 0.22, Some 0.11]"
    by (simp add: sA_def sB_def mkSight_def)
  have e: "map distance (sights sampleTour) = [Some 0.11, Some 0.22]"
    by (simp add: sampleTour_def assembleTour_fields tourStopsOf_def toTourStop_def Let_def
          Sight.defs TourStop.defs sA_def sB_def mkSight_def)
  from generateTour_distance_required
         [of 1 "[sG, sC, sB, sA]" "Some sampleSettings" grid_km sampleEnv "(0, 0)" sampleState]
       generateTour_distance_required
         [of 1 "[sG]" "Some sampleSettings" grid_km sampleEnv "(0, 0)" sampleState]
  show ?thesis
    using g h d e f sample_select_G sample_generate_G sample_stop_sights by auto
qed

section \<open>Tier classifier: results\<close>

text \<open>
  C2 (as stated, refuted): the classifier does not equal the reference definition on every
  input. A present rating of 3.5 with a present review count of 0 is tier 3 by the
  reference definition, and the classifier returns tier 2.
\<close>

theorem determineSightTier_zero_reviews_counterexample:
  "determineSightTier (Some (3.5)) (Some 0) = 2 \<and>
   tier_reference (Some (3.5)) (Some 0) = 3"
  by (simp add: determineSightTier_def tier_reference_def falsy_num_def)

text \<open>
  C2 (amended): the classifier equals the reference definition whenever neither a present
  rating nor a present review count is 0; a rating of 0 or a review count of 0 is treated
  like a missing value and gives tier 2. In particular a present non-zero rating and a
  present non-zero review count with rating below 4.0 or count below 50, not tier-1
  eligible, give tier 3.
\<close>

theorem determineSightTier_reference:
  "(r \<noteq> Some 0 \<and> c \<noteq> Some 0 \<longrightarrow> determineSightTier r c = tier_reference r c) \<and>
   (r = Some 0 \<or> c = Some 0 \<longrightarrow> determineSightTier r c = 2) \<and>
   (rv \<noteq> 0 \<and> cv \<noteq> 0 \<and> (rv < 4 \<or> cv < 50) \<and> \<not> (rv \<ge> 4.3 \<and> cv \<ge> 500)
       \<longrightarrow> determineSightTier (Some rv) (Some cv) = 3)"
  by (auto simp: determineSightTier_def tier_reference_def falsy_num_def
      split: option.splits)

theorem determineSightTier_reference_witness:
  "determineSightTier (Some (3.9)) (Some 1000) = tier_reference (Some (3.9)) (Some 1000) \<and>
   determineSightTier (Some (3.9)) (Some 1000) = 3 \<and>
   determineSightTier (Some 0) (Some 1000) = 2"
  using determineSightTier_reference [of "Some (3.9)" "Some 1000" "3.9" 1000]
    determineSightTier_reference [of "Some 0" "Some 1000" 1 1]
  by simp

end
